theory Spec2Isabelle
  imports Complex_Main "HOL-Library.Multiset"
begin

section \<open>The HLTB client of \<^verbatim>\<open>src/backend/hltb.lua\<close>\<close>

text \<open>
  The module is a Lua table of functions over five module-level cache variables. It talks
  to the network through \<^verbatim>\<open>http.get\<close> and \<^verbatim>\<open>http.request\<close>, decodes bodies with
  \<^verbatim>\<open>json.decode\<close>, and normalises and compares names with the \<^verbatim>\<open>hltb_utils\<close> module.
  None of these four is part of the sources at hand, so they are parameters of the model
  (the record \<open>lua_env\<close> below); everything in \<^verbatim>\<open>hltb.lua\<close> itself is translated.
\<close>

subsection \<open>Lua values\<close>

text \<open>
  What \<^verbatim>\<open>json.decode\<close> hands back, and what the cache variables hold. A decoded JSON
  array is a table with a sequence part (\<open>LArr\<close>), a decoded JSON object a table with
  string keys (\<open>LObj\<close>, first binding of a key wins). Numbers are the rationals: Lua's
  \<^verbatim>\<open>type\<close> answers \<^verbatim>\<open>"number"\<close> for \<^verbatim>\<open>7\<close> and for \<^verbatim>\<open>1.5\<close> alike. \<open>LNull\<close> is the
  sentinel (a userdata) that a decoder may use for JSON \<^verbatim>\<open>null\<close>; decoded arrays are
  taken to be sequences without holes.
\<close>

datatype lua_value =
    LNil
  | LBool bool
  | LNum rat
  | LStr string
  | LArr "lua_value list"
  | LObj "(string \<times> lua_value) list"
  | LNull

text \<open>How a call ends when it does not hand back a result: it returned \<^verbatim>\<open>nil\<close>, or a
  Lua error was raised and nothing caught it.\<close>

datatype failure = Nil_returned | Lua_error

fun lua_type :: "lua_value \<Rightarrow> string" where
  "lua_type LNil = ''nil''"
| "lua_type (LBool b) = ''boolean''"
| "lua_type (LNum n) = ''number''"
| "lua_type (LStr s) = ''string''"
| "lua_type (LArr xs) = ''table''"
| "lua_type (LObj kvs) = ''table''"
| "lua_type LNull = ''userdata''"

text \<open>Lua truth: everything but \<^verbatim>\<open>nil\<close> and \<^verbatim>\<open>false\<close>.\<close>

fun truthy :: "lua_value \<Rightarrow> bool" where
  "truthy LNil = False"
| "truthy (LBool b) = b"
| "truthy v = True"

text \<open>
  \<^verbatim>\<open>v.key\<close> and \<^verbatim>\<open>v[key]\<close> for a string key. A table answers with the value or
  \<^verbatim>\<open>nil\<close>; a string is indexed through the \<^verbatim>\<open>string\<close> library table, which has no entry
  under any key this module asks for; indexing nil, a boolean, a number or a userdata
  raises.
\<close>

fun lua_index :: "lua_value \<Rightarrow> string \<Rightarrow> failure + lua_value" where
  "lua_index (LObj kvs) k = Inr (case map_of kvs k of Some v \<Rightarrow> v | None \<Rightarrow> LNil)"
| "lua_index (LArr xs) k = Inr LNil"
| "lua_index (LStr s) k = Inr LNil"
| "lua_index v k = Inl Lua_error"

text \<open>The length operator \<^verbatim>\<open>#t\<close> and the elements \<^verbatim>\<open>ipairs(t)\<close> walks through, for a
  table.\<close>

fun lua_len :: "lua_value \<Rightarrow> nat" where
  "lua_len (LArr xs) = length xs"
| "lua_len v = 0"

fun ipairs :: "lua_value \<Rightarrow> lua_value list" where
  "ipairs (LArr xs) = xs"
| "ipairs v = []"

subsection \<open>Transport, decoder and module state\<close>

text \<open>
  A request is recorded by what it is made of:
  \<^item> \<open>Get_homepage\<close>: \<^verbatim>\<open>http.get(M.BASE_URL)\<close>;
  \<^item> \<open>Get_script p\<close>: \<^verbatim>\<open>http.get(M.BASE_URL .. script_src:sub(2))\<close>, \<open>p\<close> the path after the
    leading slash;
  \<^item> \<open>Get_token t\<close>: \<^verbatim>\<open>http.get(M.BASE_URL .. "api/search/init?t=" .. t)\<close>;
  \<^item> \<open>Get_game_data b g\<close>: the GET of \<^verbatim>\<open>_next/data/b/game/g.json\<close>;
  \<^item> \<open>Post_search url token query modifier page\<close>: the POST of the search payload, which
    \<^verbatim>\<open>get_search_request_data\<close> builds from the query, the modifier and the page, with the
    token in the \<^verbatim>\<open>x-auth-token\<close> header.
\<close>

datatype request =
    Get_homepage
  | Get_script string
  | Get_token int
  | Get_game_data string rat
  | Post_search string lua_value string string nat

record response =
  status :: int
  body :: string

record choice =
  distance :: int
  comp_all_count :: rat
  item :: lua_value

text \<open>
  The environment. \<open>http n rq\<close> is the answer to request \<open>rq\<close> when \<open>n\<close> requests were made
  before it (\<open>None\<close>: the transport returned no response), so the same URL may answer
  differently over time. \<open>json_decode\<close> is \<^verbatim>\<open>pcall(json.decode, body)\<close>, \<open>None\<close> when it
  raises. \<open>table_sort\<close> is Lua's \<^verbatim>\<open>table.sort\<close> with a comparison function.
\<close>

record lua_env =
  http :: "nat \<Rightarrow> request \<Rightarrow> response option"
  json_decode :: "string \<Rightarrow> lua_value option"
  sanitize_game_name :: "string \<Rightarrow> string"
  levenshtein_distance :: "string \<Rightarrow> string \<Rightarrow> int"
  table_sort :: "(choice \<Rightarrow> choice \<Rightarrow> bool) \<Rightarrow> choice list \<Rightarrow> choice list"

text \<open>The five cache variables of the module, and the requests made so far (kept to count
  network calls; the program has no such variable).\<close>

record hltb_state =
  cached_token :: lua_value
  cached_search_url :: "string option"
  cached_build_id :: "string option"
  cached_homepage :: "string option"
  token_expires_at :: int
  requests :: "request list"

definition BASE_URL :: string where
  "BASE_URL = ''https://howlongtobeat.com/''"

definition TOKEN_TTL :: int where
  "TOKEN_TTL = 300"

definition SEARCH_URL :: string where
  "SEARCH_URL = BASE_URL @ ''api/search''"

definition SKIP_ENDPOINTS :: "string list" where
  "SKIP_ENDPOINTS = [''find'', ''error'', ''user'', ''logout'']"

definition initial_state :: hltb_state where
  "initial_state = \<lparr>cached_token = LNil, cached_search_url = None, cached_build_id = None,
     cached_homepage = None, token_expires_at = 0, requests = []\<rparr>"

definition http_call :: "lua_env \<Rightarrow> request \<Rightarrow> hltb_state \<Rightarrow> response option \<times> hltb_state" where
  "http_call env rq s = (http env (length (requests s)) rq, s\<lparr>requests := requests s @ [rq]\<rparr>)"

subsection \<open>Lua patterns\<close>

text \<open>
  The module scans HTML and script text with \<^verbatim>\<open>string.gmatch\<close>, \<^verbatim>\<open>string.match\<close> and
  \<^verbatim>\<open>string.find\<close>. Its patterns use single-character classes (a literal, \<^verbatim>\<open>%s\<close>, a set, a
  complemented set), the repetitions \<^verbatim>\<open>*\<close>, \<^verbatim>\<open>+\<close> and \<^verbatim>\<open>-\<close>, and one capture; a pattern
  is given here in parsed form, as a list of items.
\<close>

datatype set_item = Ch char | Range char char

datatype char_class = Lit char | Space | Set "set_item list" | Not_set "set_item list"

datatype pitem =
    Single char_class
  | Star char_class
  | Plus char_class
  | Lazy char_class
  | Cap_open
  | Cap_close

fun in_item :: "set_item \<Rightarrow> char \<Rightarrow> bool" where
  "in_item (Ch x) c = (c = x)"
| "in_item (Range a b) c = ((of_char a :: nat) \<le> of_char c \<and> (of_char c :: nat) \<le> of_char b)"

definition is_space :: "char \<Rightarrow> bool" where
  "is_space c = ((of_char c :: nat) = 32 \<or> (9 \<le> (of_char c :: nat) \<and> (of_char c :: nat) \<le> 13))"

fun class_match :: "char_class \<Rightarrow> char \<Rightarrow> bool" where
  "class_match (Lit x) c = (c = x)"
| "class_match Space c = is_space c"
| "class_match (Set items) c = (\<exists>i \<in> set items. in_item i c)"
| "class_match (Not_set items) c = (\<not> (\<exists>i \<in> set items. in_item i c))"

definition keep :: "bool \<Rightarrow> string \<Rightarrow> char \<Rightarrow> string" where
  "keep on cap x = (if on then cap @ [x] else cap)"

text \<open>
  \<open>pmatch ps on cap s\<close> matches the items \<open>ps\<close> at the start of \<open>s\<close> and gives the captured
  text and the rest of the subject; \<open>on\<close> says whether the capture is open. As in
  \<^verbatim>\<open>lstrlib.c\<close>, \<^verbatim>\<open>*\<close> and \<^verbatim>\<open>+\<close> take the longest run first and give characters back one
  by one (\<open>max_expand\<close>), \<^verbatim>\<open>-\<close> takes the shortest run first (\<open>min_expand\<close>).
\<close>

fun pmatch :: "pitem list \<Rightarrow> bool \<Rightarrow> string \<Rightarrow> string \<Rightarrow> (string \<times> string) option"
  and max_expand :: "char_class \<Rightarrow> pitem list \<Rightarrow> bool \<Rightarrow> string \<Rightarrow> string \<Rightarrow> (string \<times> string) option"
  and min_expand :: "char_class \<Rightarrow> pitem list \<Rightarrow> bool \<Rightarrow> string \<Rightarrow> string \<Rightarrow> (string \<times> string) option"
where
  "pmatch [] on cap s = Some (cap, s)"
| "pmatch (Cap_open # ps) on cap s = pmatch ps True [] s"
| "pmatch (Cap_close # ps) on cap s = pmatch ps False cap s"
| "pmatch (Single c # ps) on cap [] = None"
| "pmatch (Single c # ps) on cap (x # xs) =
     (if class_match c x then pmatch ps on (keep on cap x) xs else None)"
| "pmatch (Star c # ps) on cap s = max_expand c ps on cap s"
| "pmatch (Plus c # ps) on cap [] = None"
| "pmatch (Plus c # ps) on cap (x # xs) =
     (if class_match c x then max_expand c ps on (keep on cap x) xs else None)"
| "pmatch (Lazy c # ps) on cap s = min_expand c ps on cap s"
| "max_expand c ps on cap [] = pmatch ps on cap []"
| "max_expand c ps on cap (x # xs) =
     (if class_match c x
      then (case max_expand c ps on (keep on cap x) xs of
              Some r \<Rightarrow> Some r
            | None \<Rightarrow> pmatch ps on cap (x # xs))
      else pmatch ps on cap (x # xs))"
| "min_expand c ps on cap [] = pmatch ps on cap []"
| "min_expand c ps on cap (x # xs) =
     (case pmatch ps on cap (x # xs) of
        Some r \<Rightarrow> Some r
      | None \<Rightarrow> if class_match c x then min_expand c ps on (keep on cap x) xs else None)"

text \<open>\<^verbatim>\<open>s:match(p)\<close>: the capture of the leftmost match. \<^verbatim>\<open>s:find(p)\<close> is used for its
  truth value only.\<close>

fun lua_match :: "pitem list \<Rightarrow> string \<Rightarrow> string option" where
  "lua_match ps [] = map_option fst (pmatch ps False [] [])"
| "lua_match ps (x # xs) =
     (case pmatch ps False [] (x # xs) of
        Some r \<Rightarrow> Some (fst r)
      | None \<Rightarrow> lua_match ps xs)"

definition lua_find :: "pitem list \<Rightarrow> string \<Rightarrow> bool" where
  "lua_find ps s = (lua_match ps s \<noteq> None)"

text \<open>\<^verbatim>\<open>s:gmatch(p)\<close>: the captures of the successive matches, each search starting where
  the last match ended (one character further on after a match that consumed nothing).\<close>

function gmatch :: "pitem list \<Rightarrow> string \<Rightarrow> string list" where
  "gmatch ps s =
     (case pmatch ps False [] s of
        Some r \<Rightarrow>
          fst r # (if length (snd r) < length s then gmatch ps (snd r)
                   else (case s of [] \<Rightarrow> [] | x # xs \<Rightarrow> gmatch ps xs))
      | None \<Rightarrow> (case s of [] \<Rightarrow> [] | x # xs \<Rightarrow> gmatch ps xs))"
  by pat_completeness auto
termination
  by (relation "measure (\<lambda>(ps, s). length s)") auto

declare gmatch.simps [simp del]

definition lits :: "string \<Rightarrow> pitem list" where
  "lits s = map (\<lambda>c. Single (Lit c)) s"

definition quote_class :: char_class where
  "quote_class = Set [Ch (CHR 0x22), Ch (CHR 0x27)]"

definition word_class :: char_class where
  "word_class = Set [Range CHR ''a'' CHR ''z'', Range CHR ''A'' CHR ''Z'',
                     Range CHR ''0'' CHR ''9'', Ch CHR ''_'']"

text \<open>\<^verbatim>\<open>'["\'](/_next/static/chunks/[^"\']+%.js)["\']'\<close>\<close>

definition chunk_pattern :: "pitem list" where
  "chunk_pattern = [Single quote_class, Cap_open] @ lits ''/_next/static/chunks/''
     @ [Plus (Not_set [Ch (CHR 0x22), Ch (CHR 0x27)])] @ lits ''.js''
     @ [Cap_close, Single quote_class]"

text \<open>\<^verbatim>\<open>'["\'](/api/[a-zA-Z0-9_]+)["\']'\<close>\<close>

definition api_pattern :: "pitem list" where
  "api_pattern = [Single quote_class, Cap_open] @ lits ''/api/'' @ [Plus word_class]
     @ [Cap_close, Single quote_class]"

text \<open>\<^verbatim>\<open>'/api/([a-zA-Z0-9_]+)'\<close>\<close>

definition endpoint_pattern :: "pitem list" where
  "endpoint_pattern = lits ''/api/'' @ [Cap_open, Plus word_class, Cap_close]"

text \<open>
  \<^verbatim>\<open>'fetch%s*%(%s*["\']' .. api_path:gsub('/', '%%/') .. '["\']%s*,%s*{[^}]-method%s*:%s*["\']POST["\']'\<close>.
  The path consists of slashes, letters, digits and underscores, so after the
  \<^verbatim>\<open>gsub\<close> every character of it stands for itself.
\<close>

definition post_pattern :: "string \<Rightarrow> pitem list" where
  "post_pattern api_path = lits ''fetch'' @ [Star Space, Single (Lit CHR ''(''), Star Space,
     Single quote_class] @ lits api_path @ [Single quote_class, Star Space,
     Single (Lit CHR '',''), Star Space, Single (Lit CHR ''{''),
     Lazy (Not_set [Ch CHR ''}''])] @ lits ''method'' @ [Star Space, Single (Lit CHR '':''),
     Star Space, Single quote_class] @ lits ''POST'' @ [Single quote_class]"

text \<open>\<^verbatim>\<open>'/_next/static/([^/]+)/_ssgManifest%.js'\<close> and
  \<^verbatim>\<open>'/_next/static/([^/]+)/_buildManifest%.js'\<close>\<close>

definition ssg_pattern :: "pitem list" where
  "ssg_pattern = lits ''/_next/static/'' @ [Cap_open, Plus (Not_set [Ch CHR ''/'']), Cap_close]
     @ lits ''/_ssgManifest.js''"

definition build_pattern :: "pitem list" where
  "build_pattern = lits ''/_next/static/'' @ [Cap_open, Plus (Not_set [Ch CHR ''/'']), Cap_close]
     @ lits ''/_buildManifest.js''"

subsection \<open>\<^verbatim>\<open>validate_fields\<close>\<close>

text \<open>\<open>Inr None\<close> is \<^verbatim>\<open>true, nil\<close>; \<open>Inr (Some name)\<close> is \<^verbatim>\<open>false, name\<close>; indexing \<open>tbl\<close>
  may raise.\<close>

fun validate_fields :: "lua_value \<Rightarrow> (string \<times> string) list \<Rightarrow> failure + string option" where
  "validate_fields tbl [] = Inr None"
| "validate_fields tbl (field # schema) =
     (case lua_index tbl (fst field) of
        Inl e \<Rightarrow> Inl e
      | Inr v \<Rightarrow> if lua_type v \<noteq> snd field then Inr (Some (fst field))
               else validate_fields tbl schema)"

subsection \<open>Homepage, search endpoint and build id\<close>

definition get_homepage :: "lua_env \<Rightarrow> hltb_state \<Rightarrow> string option \<times> hltb_state" where
  "get_homepage env s =
     (case cached_homepage s of
        Some h \<Rightarrow> (Some h, s)
      | None \<Rightarrow>
          (case http_call env Get_homepage s of (resp, s1) \<Rightarrow>
            (case resp of
               None \<Rightarrow> (None, s1)
             | Some r \<Rightarrow>
                 if status r \<noteq> 200 then (None, s1)
                 else (Some (body r), s1\<lparr>cached_homepage := Some (body r)\<rparr>))))"

text \<open>
  The inner loop of \<^verbatim>\<open>extract_search_url\<close> over the path literals of one script;
  \<open>found\<close> is the table \<^verbatim>\<open>endpoints_found\<close>, which lives across all scripts of one call.
\<close>

fun scan_paths :: "string \<Rightarrow> string list \<Rightarrow> string list \<Rightarrow> string option \<times> string list" where
  "scan_paths content [] found = (None, found)"
| "scan_paths content (api_path # rest) found =
     (case lua_match endpoint_pattern api_path of
        None \<Rightarrow> scan_paths content rest found
      | Some endpoint \<Rightarrow>
          if endpoint \<in> set found then scan_paths content rest found
          else if endpoint \<in> set SKIP_ENDPOINTS then scan_paths content rest (endpoint # found)
          else if lua_find (post_pattern api_path) content
               then (Some (''api/'' @ endpoint), endpoint # found)
               else scan_paths content rest (endpoint # found))"

text \<open>The outer loop over the chunk scripts.\<close>

fun scan_scripts ::
  "lua_env \<Rightarrow> string list \<Rightarrow> string list \<Rightarrow> hltb_state \<Rightarrow> string option \<times> hltb_state" where
  "scan_scripts env [] found s = (None, s)"
| "scan_scripts env (script_src # rest) found s =
     (case http_call env (Get_script (drop 1 script_src)) s of (resp, s1) \<Rightarrow>
       (case resp of
          None \<Rightarrow> scan_scripts env rest found s1
        | Some r \<Rightarrow>
            if status r = 200
            then (case scan_paths (body r) (gmatch api_pattern (body r)) found of
                    (Some u, found') \<Rightarrow> (Some u, s1)
                  | (None, found') \<Rightarrow> scan_scripts env rest found' s1)
            else scan_scripts env rest found s1))"

definition extract_search_url :: "lua_env \<Rightarrow> hltb_state \<Rightarrow> string option \<times> hltb_state" where
  "extract_search_url env s =
     (case get_homepage env s of
        (None, s1) \<Rightarrow> (None, s1)
      | (Some homepage, s1) \<Rightarrow> scan_scripts env (gmatch chunk_pattern homepage) [] s1)"

definition extract_build_id :: "lua_env \<Rightarrow> hltb_state \<Rightarrow> string option \<times> hltb_state" where
  "extract_build_id env s =
     (case cached_build_id s of
        Some b \<Rightarrow> (Some b, s)
      | None \<Rightarrow>
          (case get_homepage env s of
             (None, s1) \<Rightarrow> (None, s1)
           | (Some homepage, s1) \<Rightarrow>
               (case (case lua_match ssg_pattern homepage of
                        Some b \<Rightarrow> Some b
                      | None \<Rightarrow> lua_match build_pattern homepage) of
                  Some build_id \<Rightarrow> (Some build_id, s1\<lparr>cached_build_id := Some build_id\<rparr>)
                | None \<Rightarrow> (None, s1))))"

definition get_search_url :: "lua_env \<Rightarrow> hltb_state \<Rightarrow> string \<times> hltb_state" where
  "get_search_url env s =
     (case cached_search_url s of
        Some u \<Rightarrow> (u, s)
      | None \<Rightarrow>
          (case extract_search_url env s of
             (Some search_url, s1) \<Rightarrow>
               (BASE_URL @ search_url, s1\<lparr>cached_search_url := Some (BASE_URL @ search_url)\<rparr>)
           | (None, s1) \<Rightarrow> (SEARCH_URL, s1\<lparr>cached_search_url := Some SEARCH_URL\<rparr>)))"

subsection \<open>\<^verbatim>\<open>fetch_game_data\<close>\<close>

definition game_schema :: "(string \<times> string) list" where
  "game_schema = [(''comp_main'', ''number''), (''comp_plus'', ''number''),
     (''comp_100'', ''number''), (''comp_all'', ''number''), (''game_id'', ''number''),
     (''profile_steam'', ''number''), (''game_name'', ''string'')]"

text \<open>\<^verbatim>\<open>t[1]\<close> for a decoded table.\<close>

fun lua_first :: "lua_value \<Rightarrow> lua_value" where
  "lua_first (LArr (x # xs)) = x"
| "lua_first v = LNil"

text \<open>What \<^verbatim>\<open>fetch_game_data\<close> does with the body of a 200 response.\<close>

definition decode_game_data :: "lua_env \<Rightarrow> string \<Rightarrow> failure + lua_value" where
  "decode_game_data env b =
     (case json_decode env b of
        None \<Rightarrow> Inl Nil_returned
      | Some data \<Rightarrow>
          if \<not> truthy data then Inl Nil_returned
          else (case lua_index data ''pageProps'' of
             Inl e \<Rightarrow> Inl e
           | Inr pageProps \<Rightarrow>
               if lua_type pageProps \<noteq> ''table'' then Inl Nil_returned
               else (case lua_index pageProps ''game'' of
                  Inl e \<Rightarrow> Inl e
                | Inr game \<Rightarrow>
                    if lua_type game \<noteq> ''table'' then Inl Nil_returned
                    else (case lua_index game ''data'' of
                       Inl e \<Rightarrow> Inl e
                     | Inr gdata \<Rightarrow>
                         if lua_type gdata \<noteq> ''table'' then Inl Nil_returned
                         else (case lua_index gdata ''game'' of
                            Inl e \<Rightarrow> Inl e
                          | Inr game_array \<Rightarrow>
                              if lua_type game_array \<noteq> ''table'' then Inl Nil_returned
                              else if lua_len game_array \<noteq> 1 then Inl Nil_returned
                              else (case validate_fields (lua_first game_array) game_schema of
                                 Inl e \<Rightarrow> Inl e
                               | Inr (Some failed_field) \<Rightarrow> Inl Nil_returned
                               | Inr None \<Rightarrow> Inr (lua_first game_array)))))))"

definition fetch_game_data ::
  "lua_env \<Rightarrow> rat \<Rightarrow> hltb_state \<Rightarrow> (failure + lua_value) \<times> hltb_state" where
  "fetch_game_data env game_id s =
     (case extract_build_id env s of
        (None, s1) \<Rightarrow> (Inl Nil_returned, s1)
      | (Some build_id, s1) \<Rightarrow>
          (case http_call env (Get_game_data build_id game_id) s1 of (resp, s2) \<Rightarrow>
            (case resp of
               None \<Rightarrow> (Inl Nil_returned, s2)
             | Some r \<Rightarrow>
                 if status r \<noteq> 200 then (Inl Nil_returned, s2)
                 else (decode_game_data env (body r), s2))))"

subsection \<open>\<^verbatim>\<open>M.get_auth_token\<close> and \<^verbatim>\<open>M.clear_cache\<close>\<close>

definition get_auth_token ::
  "lua_env \<Rightarrow> bool \<Rightarrow> int \<Rightarrow> hltb_state \<Rightarrow> (failure + lua_value) \<times> hltb_state" where
  "get_auth_token env force_refresh now s =
     (if \<not> force_refresh \<and> truthy (cached_token s) \<and> now < token_expires_at s
      then (Inr (cached_token s), s)
      else
        (case http_call env (Get_token (now * 1000)) s of (resp, s1) \<Rightarrow>
          (case resp of
             None \<Rightarrow> (Inl Nil_returned, s1)
           | Some r \<Rightarrow>
               if status r \<noteq> 200 then (Inl Nil_returned, s1)
               else (case json_decode env (body r) of
                  None \<Rightarrow> (Inl Nil_returned, s1)
                | Some data \<Rightarrow>
                    if \<not> truthy data then (Inl Nil_returned, s1)
                    else (case lua_index data ''token'' of
                       Inl e \<Rightarrow> (Inl e, s1)
                     | Inr tok \<Rightarrow>
                         if \<not> truthy tok then (Inl Nil_returned, s1)
                         else (Inr tok,
                               s1\<lparr>cached_token := tok,
                                  token_expires_at := now + TOKEN_TTL\<rparr>))))))"

definition clear_cache :: "hltb_state \<Rightarrow> hltb_state" where
  "clear_cache s = s\<lparr>cached_search_url := None, cached_build_id := None,
     cached_homepage := None, cached_token := LNil, token_expires_at := 0\<rparr>"

subsection \<open>\<^verbatim>\<open>M.search\<close>\<close>

text \<open>The loop that checks every item of the result array.\<close>

fun validate_items :: "lua_value list \<Rightarrow> failure + unit" where
  "validate_items [] = Inr ()"
| "validate_items (it # rest) =
     (case lua_index it ''game_id'' of
        Inl e \<Rightarrow> Inl e
      | Inr game_id \<Rightarrow>
          if lua_type game_id \<noteq> ''number'' then Inl Nil_returned
          else (case lua_index it ''game_name'' of
             Inl e \<Rightarrow> Inl e
           | Inr game_name \<Rightarrow>
               if lua_type game_name \<noteq> ''string'' then Inl Nil_returned
               else (case lua_index it ''comp_all_count'' of
                  Inl e \<Rightarrow> Inl e
                | Inr cnt \<Rightarrow>
                    if lua_type cnt \<noteq> ''number'' then Inl Nil_returned
                    else validate_items rest)))"

text \<open>
  What \<^verbatim>\<open>M.search\<close> does with the body of a 200 response. Before the items are checked,
  the fields of the first one are logged with \<^verbatim>\<open>pairs(first)\<close>, which raises unless
  \<open>first\<close> is a table.
\<close>

definition decode_search :: "lua_env \<Rightarrow> string \<Rightarrow> failure + lua_value" where
  "decode_search env b =
     (case json_decode env b of
        None \<Rightarrow> Inl Nil_returned
      | Some data \<Rightarrow>
          if \<not> truthy data then Inl Nil_returned
          else (case lua_index data ''data'' of
             Inl e \<Rightarrow> Inl e
           | Inr results \<Rightarrow>
               if lua_type results \<noteq> ''table'' then Inl Nil_returned
               else if lua_len results > 0 \<and> lua_type (lua_first results) \<noteq> ''table''
                    then Inl Lua_error
               else (case validate_items (ipairs results) of
                  Inl e \<Rightarrow> Inl e
                | Inr u \<Rightarrow> Inr data)))"

definition search ::
  "lua_env \<Rightarrow> int \<Rightarrow> string \<Rightarrow> string \<Rightarrow> nat \<Rightarrow> hltb_state \<Rightarrow> (failure + lua_value) \<times> hltb_state" where
  "search env now query modifier page s =
     (case get_auth_token env False now s of
        (Inl e, s1) \<Rightarrow> (Inl e, s1)
      | (Inr auth_token, s1) \<Rightarrow>
          (case get_search_url env s1 of (search_url, s2) \<Rightarrow>
            (case http_call env (Post_search search_url auth_token query modifier page) s2 of
               (resp, s3) \<Rightarrow>
                 (case resp of
                    None \<Rightarrow> (Inl Nil_returned, s3)
                  | Some r \<Rightarrow>
                      if status r \<noteq> 200 then (Inl Nil_returned, s3)
                      else (decode_search env (body r), s3)))))"

subsection \<open>\<^verbatim>\<open>M.search_best_match\<close>\<close>

text \<open>\<^verbatim>\<open>string.lower\<close> in the C locale.\<close>

definition lower_char :: "char \<Rightarrow> char" where
  "lower_char c =
     (case map_of (zip ''ABCDEFGHIJKLMNOPQRSTUVWXYZ'' ''abcdefghijklmnopqrstuvwxyz'') c of
        Some l \<Rightarrow> l
      | None \<Rightarrow> c)"

definition lower :: "string \<Rightarrow> string" where
  "lower s = map lower_char s"

definition normalize :: "lua_env \<Rightarrow> string \<Rightarrow> string" where
  "normalize env name = lower (sanitize_game_name env name)"

text \<open>
  The first loop: the first item whose normalised name is the normalised title. The
  items come from \<^verbatim>\<open>M.search\<close>, which has checked that \<^verbatim>\<open>game_name\<close> is a string and
  \<^verbatim>\<open>game_id\<close> and \<^verbatim>\<open>comp_all_count\<close> are numbers; the branches for other values are
  there to keep the functions total and are never taken (lemmas \<open>exact_match_valid\<close>,
  \<open>make_choices_valid\<close>).
\<close>

fun exact_match :: "lua_env \<Rightarrow> string \<Rightarrow> lua_value list \<Rightarrow> failure + lua_value option" where
  "exact_match env normalized_app_name [] = Inr None"
| "exact_match env normalized_app_name (it # rest) =
     (case lua_index it ''game_name'' of
        Inr (LStr game_name) \<Rightarrow>
          if normalize env game_name = normalized_app_name then Inr (Some it)
          else exact_match env normalized_app_name rest
      | Inr v \<Rightarrow> Inl Lua_error
      | Inl e \<Rightarrow> Inl e)"

text \<open>The second loop: one entry of \<^verbatim>\<open>possible_choices\<close> per item.\<close>

fun make_choices :: "lua_env \<Rightarrow> string \<Rightarrow> lua_value list \<Rightarrow> failure + choice list" where
  "make_choices env normalized_app_name [] = Inr []"
| "make_choices env normalized_app_name (it # rest) =
     (case lua_index it ''game_name'' of
        Inr (LStr game_name) \<Rightarrow>
          (case lua_index it ''comp_all_count'' of
             Inr (LNum cnt) \<Rightarrow>
               (case make_choices env normalized_app_name rest of
                  Inl e \<Rightarrow> Inl e
                | Inr cs \<Rightarrow>
                    Inr (\<lparr>distance = levenshtein_distance env normalized_app_name
                                       (normalize env game_name),
                          comp_all_count = cnt, item = it\<rparr> # cs))
           | Inr v \<Rightarrow> Inl Lua_error
           | Inl e \<Rightarrow> Inl e)
      | Inr v \<Rightarrow> Inl Lua_error
      | Inl e \<Rightarrow> Inl e)"

text \<open>The comparison function handed to \<^verbatim>\<open>table.sort\<close>.\<close>

definition choice_before :: "choice \<Rightarrow> choice \<Rightarrow> bool" where
  "choice_before a b =
     (if distance a = distance b then comp_all_count a > comp_all_count b
      else distance a < distance b)"

text \<open>
  The loop over the top candidates; \<open>Inr None\<close> when it runs to its end. A record that
  \<^verbatim>\<open>fetch_game_data\<close> returns has a number as \<^verbatim>\<open>profile_steam\<close>, and the \<^verbatim>\<open>game_id\<close> of a
  candidate is a number, so of the branches below only three are ever taken: the fetch
  returns \<^verbatim>\<open>nil\<close>, it raises, or it returns a record whose Steam id is or is not the one
  asked for.
\<close>

fun check_steam_ids ::
  "lua_env \<Rightarrow> rat \<Rightarrow> choice list \<Rightarrow> hltb_state \<Rightarrow> (failure + lua_value option) \<times> hltb_state" where
  "check_steam_ids env steam_app_id [] s = (Inr None, s)"
| "check_steam_ids env steam_app_id (candidate # rest) s =
     (case lua_index (item candidate) ''game_id'' of
        Inr (LNum game_id) \<Rightarrow>
          (case fetch_game_data env game_id s of
             (Inl Nil_returned, s1) \<Rightarrow> check_steam_ids env steam_app_id rest s1
           | (Inl Lua_error, s1) \<Rightarrow> (Inl Lua_error, s1)
           | (Inr game_data, s1) \<Rightarrow>
               (case lua_index game_data ''profile_steam'' of
                  Inl e \<Rightarrow> (Inl e, s1)
                | Inr p \<Rightarrow>
                    if p = LNum steam_app_id then (Inr (Some (item candidate)), s1)
                    else check_steam_ids env steam_app_id rest s1))
      | Inr v \<Rightarrow> (Inl Lua_error, s)
      | Inl e \<Rightarrow> (Inl e, s))"

definition max_steam_id_checks :: nat where
  "max_steam_id_checks = 3"

definition search_best_match ::
  "lua_env \<Rightarrow> int \<Rightarrow> string \<Rightarrow> rat option \<Rightarrow> hltb_state \<Rightarrow> (failure + lua_value) \<times> hltb_state" where
  "search_best_match env now app_name steam_app_id s =
     (case search env now app_name [] 1 s of
        (Inl e, s1) \<Rightarrow> (Inl e, s1)
      | (Inr search_results, s1) \<Rightarrow>
          (case lua_index search_results ''data'' of
             Inl e \<Rightarrow> (Inl e, s1)
           | Inr results \<Rightarrow>
               if lua_len results = 0 then (Inl Nil_returned, s1)
               else
                 (case exact_match env (normalize env app_name) (ipairs results) of
                    Inl e \<Rightarrow> (Inl e, s1)
                  | Inr (Some it) \<Rightarrow> (Inr it, s1)
                  | Inr None \<Rightarrow>
                      (case make_choices env (normalize env app_name) (ipairs results) of
                         Inl e \<Rightarrow> (Inl e, s1)
                       | Inr unsorted \<Rightarrow>
                           (let possible_choices = table_sort env choice_before unsorted in
                            (case (case steam_app_id of
                                     Some sid \<Rightarrow>
                                       check_steam_ids env sid
                                         (take (min max_steam_id_checks (length possible_choices))
                                            possible_choices) s1
                                   | None \<Rightarrow> (Inr None, s1)) of
                               (Inl e, s2) \<Rightarrow> (Inl e, s2)
                             | (Inr (Some it), s2) \<Rightarrow> (Inr it, s2)
                             | (Inr None, s2) \<Rightarrow>
                                 (case possible_choices of
                                    [] \<Rightarrow> (Inl Nil_returned, s2)
                                  | best # others \<Rightarrow> (Inr (item best), s2))))))))"

section \<open>Vocabulary of the properties\<close>

text \<open>\<open>has_type tbl k ty\<close>: indexing \<open>tbl\<close> with \<open>k\<close> gives a value, and \<^verbatim>\<open>type\<close> of it
  is \<open>ty\<close>.\<close>

definition has_type :: "lua_value \<Rightarrow> string \<Rightarrow> string \<Rightarrow> bool" where
  "has_type tbl k ty = (case lua_index tbl k of Inr v \<Rightarrow> lua_type v = ty | Inl e \<Rightarrow> False)"

text \<open>A search item with a number as catalog id, a string as display name and a number as
  popularity count.\<close>

definition valid_item :: "lua_value \<Rightarrow> bool" where
  "valid_item it = (has_type it ''game_id'' ''number'' \<and> has_type it ''game_name'' ''string''
     \<and> has_type it ''comp_all_count'' ''number'')"

definition is_integer :: "lua_value \<Rightarrow> bool" where
  "is_integer v = (case v of LNum q \<Rightarrow> of_int \<lfloor>q\<rfloor> = q | _ \<Rightarrow> False)"

text \<open>A detail record with the seven required fields.\<close>

definition typed_game_record :: "lua_value \<Rightarrow> bool" where
  "typed_game_record g =
     (has_type g ''comp_main'' ''number'' \<and> has_type g ''comp_plus'' ''number''
      \<and> has_type g ''comp_100'' ''number'' \<and> has_type g ''comp_all'' ''number''
      \<and> has_type g ''game_id'' ''number'' \<and> has_type g ''profile_steam'' ''number''
      \<and> has_type g ''game_name'' ''string'')"

text \<open>\<^verbatim>\<open>v.k1.k2...\<close>, raising where Lua raises.\<close>

fun lua_path :: "lua_value \<Rightarrow> string list \<Rightarrow> failure + lua_value" where
  "lua_path v [] = Inr v"
| "lua_path v (k # ks) = (case lua_index v k of Inl e \<Rightarrow> Inl e | Inr w \<Rightarrow> lua_path w ks)"

text \<open>The three fields of a search item that \<^verbatim>\<open>M.search\<close> has checked.\<close>

definition item_name :: "lua_value \<Rightarrow> string" where
  "item_name it = (case lua_index it ''game_name'' of Inr (LStr n) \<Rightarrow> n | _ \<Rightarrow> [])"

definition item_count :: "lua_value \<Rightarrow> rat" where
  "item_count it = (case lua_index it ''comp_all_count'' of Inr (LNum c) \<Rightarrow> c | _ \<Rightarrow> 0)"

definition item_id :: "lua_value \<Rightarrow> rat" where
  "item_id it = (case lua_index it ''game_id'' of Inr (LNum c) \<Rightarrow> c | _ \<Rightarrow> 0)"

text \<open>The entry of \<^verbatim>\<open>possible_choices\<close> that belongs to an item: the distance between the
  normalised title and the normalised name, the popularity count, the item.\<close>

definition choice_of :: "lua_env \<Rightarrow> string \<Rightarrow> lua_value \<Rightarrow> choice" where
  "choice_of env title it =
     \<lparr>distance = levenshtein_distance env (normalize env title) (normalize env (item_name it)),
      comp_all_count = item_count it, item = it\<rparr>"

text \<open>What the module relies on from \<^verbatim>\<open>table.sort\<close> with its comparison function: the
  sorted table holds the entries it held before, and no entry stands before one that
  the comparison puts first. The order of entries that the comparison does not
  separate is left open, as it is in Lua.\<close>

definition sort_contract :: "((choice \<Rightarrow> choice \<Rightarrow> bool) \<Rightarrow> choice list \<Rightarrow> choice list) \<Rightarrow> bool" where
  "sort_contract srt =
     (\<forall>xs. mset (srt choice_before xs) = mset xs
           \<and> sorted_wrt (\<lambda>a b. \<not> choice_before b a) (srt choice_before xs))"

text \<open>The sorted table \<^verbatim>\<open>possible_choices\<close> for a title and the items of a search.\<close>

definition ranked :: "lua_env \<Rightarrow> string \<Rightarrow> lua_value list \<Rightarrow> choice list" where
  "ranked env title items = table_sort env choice_before (map (choice_of env title) items)"

text \<open>Kinds of requests, and the requests made between two states.\<close>

fun is_game_data :: "request \<Rightarrow> bool" where
  "is_game_data (Get_game_data b g) = True"
| "is_game_data rq = False"

fun is_discovery :: "request \<Rightarrow> bool" where
  "is_discovery Get_homepage = True"
| "is_discovery (Get_script p) = True"
| "is_discovery rq = False"

definition new_requests :: "hltb_state \<Rightarrow> hltb_state \<Rightarrow> request list" where
  "new_requests s s' = drop (length (requests s)) (requests s')"

text \<open>
  Endpoint discovery, seen from outside. \<open>scan_literals env n scripts\<close> lists, in the order
  of the scan, every path literal of every script that answers 200, each with the body it
  stands in, when the first script is requested as request number \<open>n\<close>; a script whose
  fetch fails adds nothing. A literal is \<open>verified\<close> when its endpoint is not on the skip
  list and its body holds a POST fetch of the path.
\<close>

fun scan_literals :: "lua_env \<Rightarrow> nat \<Rightarrow> string list \<Rightarrow> (string \<times> string) list" where
  "scan_literals env n [] = []"
| "scan_literals env n (script_src # rest) =
     (case http env n (Get_script (drop 1 script_src)) of
        Some r \<Rightarrow>
          if status r = 200 then map (Pair (body r)) (gmatch api_pattern (body r)) else []
      | None \<Rightarrow> [])
     @ scan_literals env (Suc n) rest"

definition verified :: "string \<Rightarrow> string \<Rightarrow> bool" where
  "verified content api_path =
     (case lua_match endpoint_pattern api_path of
        Some endpoint \<Rightarrow>
          endpoint \<notin> set SKIP_ENDPOINTS \<and> lua_find (post_pattern api_path) content
      | None \<Rightarrow> False)"

text \<open>The first verified literal, as the specification words it.\<close>

fun first_verified :: "(string \<times> string) list \<Rightarrow> string option" where
  "first_verified [] = None"
| "first_verified (l # rest) =
     (if verified (fst l) (snd l)
      then map_option (\<lambda>endpoint. ''api/'' @ endpoint) (lua_match endpoint_pattern (snd l))
      else first_verified rest)"

text \<open>The first verified literal among those whose endpoint has not been met before in
  the scan; \<open>seen\<close> holds the endpoints met so far.\<close>

fun first_fresh_verified :: "(string \<times> string) list \<Rightarrow> string list \<Rightarrow> string option" where
  "first_fresh_verified [] seen = None"
| "first_fresh_verified (l # rest) seen =
     (case lua_match endpoint_pattern (snd l) of
        None \<Rightarrow> first_fresh_verified rest seen
      | Some endpoint \<Rightarrow>
          if endpoint \<in> set seen then first_fresh_verified rest seen
          else if verified (fst l) (snd l) then Some (''api/'' @ endpoint)
          else first_fresh_verified rest (endpoint # seen))"

text \<open>A caller's sequence of calls to the functions the module exports.\<close>

datatype call =
    Call_token bool int
  | Call_search int string string nat
  | Call_best_match int string "rat option"
  | Call_clear

fun run_call :: "lua_env \<Rightarrow> call \<Rightarrow> hltb_state \<Rightarrow> hltb_state" where
  "run_call env (Call_token force_refresh now) s = snd (get_auth_token env force_refresh now s)"
| "run_call env (Call_search now query modifier page) s = snd (search env now query modifier page s)"
| "run_call env (Call_best_match now app_name steam_app_id) s
     = snd (search_best_match env now app_name steam_app_id s)"
| "run_call env Call_clear s = clear_cache s"

fun run_calls :: "lua_env \<Rightarrow> call list \<Rightarrow> hltb_state \<Rightarrow> hltb_state" where
  "run_calls env [] s = s"
| "run_calls env (c # cs) s = run_calls env cs (run_call env c s)"

text \<open>\<open>keeps_url u rq\<close>: \<open>rq\<close> is no script fetch, and if it is a search it goes to \<open>u\<close>.
  \<open>search_traffic u rq\<close>: \<open>rq\<close> is a token fetch or a search that goes to \<open>u\<close>.\<close>

fun keeps_url :: "string \<Rightarrow> request \<Rightarrow> bool" where
  "keeps_url u (Get_script p) = False"
| "keeps_url u (Post_search u' tok q m p) = (u' = u)"
| "keeps_url u rq = True"

fun search_traffic :: "string \<Rightarrow> request \<Rightarrow> bool" where
  "search_traffic u (Get_token t) = True"
| "search_traffic u (Post_search u' tok q m p) = (u' = u)"
| "search_traffic u rq = False"

section \<open>Sample environment\<close>

text \<open>
  A small concrete world on which the functions above can be run: a transport that
  answers each request the same way at all times, a decoder that knows the bodies this
  transport sends, the identity as name sanitiser, and an insertion sort for
  \<^verbatim>\<open>table.sort\<close>.
\<close>

text \<open>Modelled from the spec: \<^verbatim>\<open>hltb_utils.levenshtein_distance\<close> is not among the
  sources; the spec calls it the Levenshtein edit distance between the two names. It is
  computed row by row: \<open>next_row x b prev left\<close> continues the row for the character
  \<open>x\<close> from the previous row \<open>prev\<close> and the entry \<open>left\<close> just computed.\<close>

fun next_row :: "char \<Rightarrow> string \<Rightarrow> nat list \<Rightarrow> nat \<Rightarrow> nat list" where
  "next_row x (y # ys) (d # u # prev) left =
     (let v = min (min (u + 1) (left + 1)) (d + (if x = y then 0 else 1))
      in v # next_row x ys (u # prev) v)"
| "next_row x ys prev left = []"

fun lev_rows :: "string \<Rightarrow> string \<Rightarrow> nat list \<Rightarrow> nat list" where
  "lev_rows [] b row = row"
| "lev_rows (x # xs) b row =
     (case row of
        [] \<Rightarrow> []
      | d # rest \<Rightarrow> lev_rows xs b ((d + 1) # next_row x b row (d + 1)))"

definition levenshtein :: "string \<Rightarrow> string \<Rightarrow> nat" where
  "levenshtein a b = (case rev (lev_rows a b [0..<Suc (length b)]) of [] \<Rightarrow> 0 | d # ds \<Rightarrow> d)"

fun insert_by :: "('a \<Rightarrow> 'a \<Rightarrow> bool) \<Rightarrow> 'a \<Rightarrow> 'a list \<Rightarrow> 'a list" where
  "insert_by lt x [] = [x]"
| "insert_by lt x (y # ys) = (if lt y x then y # insert_by lt x ys else x # y # ys)"

definition insertion_sort :: "('a \<Rightarrow> 'a \<Rightarrow> bool) \<Rightarrow> 'a list \<Rightarrow> 'a list" where
  "insertion_sort lt xs = foldr (insert_by lt) xs []"

definition game_item :: "rat \<Rightarrow> string \<Rightarrow> rat \<Rightarrow> lua_value" where
  "game_item gid name cnt =
     LObj [(''game_id'', LNum gid), (''game_name'', LStr name), (''comp_all_count'', LNum cnt)]"

definition search_data :: "lua_value list \<Rightarrow> lua_value" where
  "search_data items = LObj [(''data'', LArr items)]"

definition game_record :: "rat \<Rightarrow> string \<Rightarrow> rat \<Rightarrow> lua_value" where
  "game_record gid name steam =
     LObj [(''comp_main'', LNum 151200), (''comp_plus'', LNum 201600),
           (''comp_100'', LNum 378000), (''comp_all'', LNum 216000),
           (''game_id'', LNum gid), (''profile_steam'', LNum steam),
           (''game_name'', LStr name)]"

definition detail_data :: "lua_value list \<Rightarrow> lua_value" where
  "detail_data games =
     LObj [(''pageProps'', LObj [(''game'', LObj [(''data'', LObj [(''game'', LArr games)])])])]"

definition token_body :: string where
  \<open>token_body = ''{"token":"abc"}''\<close>

definition souls_body :: string where
  \<open>souls_body = ''{"data":[{"game_id":1001,"game_name":"Dark Souls","comp_all_count":500},{"game_id":1002,"game_name":"Dark Souls II","comp_all_count":300}]}''\<close>

definition souls3_body :: string where
  \<open>souls3_body = ''{"data":[{"game_id":2001,"game_name":"Dark Souls","comp_all_count":100},{"game_id":2002,"game_name":"Dark Souls II","comp_all_count":400},{"game_id":2003,"game_name":"Dark Souls III","comp_all_count":50}]}''\<close>

definition tie_body :: string where
  \<open>tie_body = ''{"data":[{"game_id":3001,"game_name":"Dark Souls 1","comp_all_count":100},{"game_id":3002,"game_name":"Dark Souls 2","comp_all_count":100}]}''\<close>

definition empty_body :: string where
  \<open>empty_body = ''{"data":[]}''\<close>

definition half_body :: string where
  \<open>half_body = ''{"data":[{"game_id":1.5,"game_name":"Half","comp_all_count":7}]}''\<close>

definition broken_body :: string where
  \<open>broken_body = ''{"data":[{"game_id":1001,"game_name":"Dark Souls","comp_all_count":500},{"game_id":"1002","game_name":"Dark Souls II","comp_all_count":300}]}''\<close>

definition detail_2001_body :: string where
  \<open>detail_2001_body = ''{"pageProps":{"game":{"data":{"game":[{"comp_main":151200,"comp_plus":201600,"comp_100":378000,"comp_all":216000,"game_id":2001,"profile_steam":570,"game_name":"Dark Souls"}]}}}}''\<close>

definition detail_2002_body :: string where
  \<open>detail_2002_body = ''{"pageProps":{"game":{"data":{"game":[7]}}}}''\<close>

definition sample_decode :: "string \<Rightarrow> lua_value option" where
  "sample_decode = map_of
     [(token_body, LObj [(''token'', LStr ''abc'')]),
      (souls_body, search_data [game_item 1001 ''Dark Souls'' 500,
                                game_item 1002 ''Dark Souls II'' 300]),
      (souls3_body, search_data [game_item 2001 ''Dark Souls'' 100,
                                 game_item 2002 ''Dark Souls II'' 400,
                                 game_item 2003 ''Dark Souls III'' 50]),
      (tie_body, search_data [game_item 3001 ''Dark Souls 1'' 100,
                              game_item 3002 ''Dark Souls 2'' 100]),
      (empty_body, search_data []),
      (half_body, search_data [game_item (3 / 2) ''Half'' 7]),
      (broken_body, search_data [game_item 1001 ''Dark Souls'' 500,
         LObj [(''game_id'', LStr ''1002''), (''game_name'', LStr ''Dark Souls II''),
               (''comp_all_count'', LNum 300)]]),
      (detail_2001_body, detail_data [game_record 2001 ''Dark Souls'' 570]),
      (detail_2002_body, detail_data [LNum 7])]"

definition sample_homepage :: string where
  \<open>sample_homepage = ''<script src="/_next/static/chunks/a.js"></script><script src="/_next/static/chunks/b.js"></script><script src="/_next/static/Bld1/_buildManifest.js">''\<close>

definition script_a :: string where
  \<open>script_a = ''u("/api/user");p="/api/seek"''\<close>

definition script_b :: string where
  \<open>script_b = ''fetch("/api/seek",{method:"POST"});fetch("/api/lookup", {k:1,method: "POST"})''\<close>

definition ok :: "string \<Rightarrow> response option" where
  "ok b = Some \<lparr>status = 200, body = b\<rparr>"

fun sample_http :: "nat \<Rightarrow> request \<Rightarrow> response option" where
  "sample_http n Get_homepage = ok sample_homepage"
| "sample_http n (Get_script p) =
     (if p = ''_next/static/chunks/a.js'' then ok script_a
      else if p = ''_next/static/chunks/b.js'' then ok script_b
      else None)"
| "sample_http n (Get_token t) = ok token_body"
| "sample_http n (Get_game_data b g) =
     (if b = ''Bld1'' \<and> g = 2001 then ok detail_2001_body
      else if b = ''Bld1'' \<and> g = 2002 then ok detail_2002_body
      else None)"
| "sample_http n (Post_search u tok q m p) =
     (if q = ''Dark Souls'' then ok souls_body
      else if q = ''Dark Souls 3'' then ok souls3_body
      else if q = ''Dark Souls 4'' then ok tie_body
      else if q = ''Nothing'' then ok empty_body
      else if q = ''Half'' then ok half_body
      else if q = ''Broken'' then ok broken_body
      else None)"

definition sample_env :: lua_env where
  "sample_env = \<lparr>http = sample_http, json_decode = sample_decode,
     sanitize_game_name = (\<lambda>name. name),
     levenshtein_distance = (\<lambda>a b. int (levenshtein a b)),
     table_sort = insertion_sort\<rparr>"

text \<open>The same world with another \<^verbatim>\<open>table.sort\<close>, which also keeps \<open>sort_contract\<close>.\<close>

definition other_sort_env :: lua_env where
  "other_sort_env = sample_env\<lparr>table_sort := (\<lambda>lt xs. insertion_sort lt (rev xs))\<rparr>"

text \<open>The same world, except that the second request ever made gets no response.\<close>

definition flaky_env :: lua_env where
  "flaky_env = sample_env\<lparr>http := (\<lambda>n rq. if n = 1 then None else sample_http n rq)\<rparr>"


text \<open>A state in which the token, the fallback search URL and a build id are cached.\<close>

definition ready_state :: hltb_state where
  "ready_state = initial_state\<lparr>cached_token := LStr ''abc'', token_expires_at := 400,
     cached_search_url := Some SEARCH_URL, cached_build_id := Some ''Bld1''\<rparr>"

text \<open>The state after a first search in \<open>flaky_env\<close>: the fallback search URL is cached.\<close>

definition pinned_state :: hltb_state where
  "pinned_state = initial_state\<lparr>cached_token := LStr ''abc'', token_expires_at := 300,
     cached_search_url := Some SEARCH_URL,
     requests := [Get_token 0, Get_homepage,
                  Post_search SEARCH_URL (LStr ''abc'') ''Nothing'' [] 1]\<rparr>"

text \<open>A world without network.\<close>

definition offline_env :: lua_env where
  "offline_env = sample_env\<lparr>http := (\<lambda>n rq. None)\<rparr>"

section \<open>Properties\<close>

subsection \<open>The auth token\<close>










subsection \<open>Which requests each function makes, and which variables it leaves alone\<close>

lemma get_auth_token_fields:
  "cached_search_url (snd (get_auth_token env force now s)) = cached_search_url s"
  "cached_build_id (snd (get_auth_token env force now s)) = cached_build_id s"
  "cached_homepage (snd (get_auth_token env force now s)) = cached_homepage s"
  "requests (snd (get_auth_token env force now s)) = requests s
   \<or> requests (snd (get_auth_token env force now s)) = requests s @ [Get_token (now * 1000)]"
  by (simp_all add: get_auth_token_def http_call_def split: option.splits sum.splits)

lemma get_auth_token_frame:
  assumes "get_auth_token env force now s = (r, s')"
  shows "cached_search_url s' = cached_search_url s \<and> cached_build_id s' = cached_build_id s
   \<and> cached_homepage s' = cached_homepage s
   \<and> (requests s' = requests s \<or> requests s' = requests s @ [Get_token (now * 1000)])"
proof -
  have "s' = snd (get_auth_token env force now s)" using assms by simp
  then show ?thesis using get_auth_token_fields [of env force now s] by simp
qed

lemma get_homepage_fields:
  "cached_token (snd (get_homepage env s)) = cached_token s"
  "cached_search_url (snd (get_homepage env s)) = cached_search_url s"
  "cached_build_id (snd (get_homepage env s)) = cached_build_id s"
  "token_expires_at (snd (get_homepage env s)) = token_expires_at s"
  "requests (snd (get_homepage env s)) = requests s
   \<or> requests (snd (get_homepage env s)) = requests s @ [Get_homepage]"
  by (simp_all add: get_homepage_def http_call_def split: option.splits)

lemma get_homepage_frame:
  assumes "get_homepage env s = (r, s')"
  shows "cached_token s' = cached_token s \<and> cached_search_url s' = cached_search_url s
   \<and> cached_build_id s' = cached_build_id s \<and> token_expires_at s' = token_expires_at s
   \<and> (requests s' = requests s \<or> requests s' = requests s @ [Get_homepage])"
proof -
  have "s' = snd (get_homepage env s)" using assms by simp
  then show ?thesis using get_homepage_fields [of env s] by simp
qed


lemma scan_scripts_frame:
  "scan_scripts env scripts found s = (r, s') \<Longrightarrow>
   \<exists>k \<le> length scripts. s' = s\<lparr>requests := requests s @ map (\<lambda>src. Get_script (drop 1 src)) (take k scripts)\<rparr>"
proof (induction scripts arbitrary: found s)
  case Nil
  then show ?case by simp
next
  case (Cons src rest)
  let ?s1 = "s\<lparr>requests := requests s @ [Get_script (drop 1 src)]\<rparr>"
  from Cons.prems consider
      (stop) "s' = ?s1"
    | (go) found' where "scan_scripts env rest found' ?s1 = (r, s')"
    by (auto simp: http_call_def split: option.splits if_splits prod.splits)
  then show ?case
  proof cases
    case stop
    then have "s' = s\<lparr>requests := requests s @ map (\<lambda>src. Get_script (drop 1 src)) (take 1 (src # rest))\<rparr>"
      by simp
    then show ?thesis by (intro exI [of _ 1]) simp
  next
    case go
    from Cons.IH [OF go] obtain k where k: "k \<le> length rest"
      "s' = ?s1\<lparr>requests := requests ?s1 @ map (\<lambda>src. Get_script (drop 1 src)) (take k rest)\<rparr>"
      by blast
    then have "s' = s\<lparr>requests := requests s @ map (\<lambda>src. Get_script (drop 1 src)) (take (Suc k) (src # rest))\<rparr>"
      by simp
    with k(1) show ?thesis by (intro exI [of _ "Suc k"]) simp
  qed
qed

lemma map_script_discovery: "list_all is_discovery (map (\<lambda>src. Get_script (drop 1 src)) xs)"
  by (simp add: list_all_iff)

lemma extract_search_url_frame:
  assumes "extract_search_url env s = (r, s')"
  shows "cached_token s' = cached_token s \<and> cached_search_url s' = cached_search_url s
   \<and> cached_build_id s' = cached_build_id s \<and> token_expires_at s' = token_expires_at s
   \<and> (\<exists>new. requests s' = requests s @ new \<and> list_all is_discovery new)"
proof -
  obtain hr s1 where h: "get_homepage env s = (hr, s1)" by (cases "get_homepage env s")
  note f1 = get_homepage_frame [OF h]
  have r1: "\<exists>new. requests s1 = requests s @ new \<and> list_all is_discovery new"
  proof -
    from f1 have "requests s1 = requests s @ [] \<or> requests s1 = requests s @ [Get_homepage]"
      by simp
    then show ?thesis
    proof
      assume "requests s1 = requests s @ []"
      then show ?thesis by (intro exI [of _ "[]"]) simp
    next
      assume "requests s1 = requests s @ [Get_homepage]"
      then show ?thesis by (intro exI [of _ "[Get_homepage]"]) simp
    qed
  qed
  show ?thesis
  proof (cases hr)
    case None
    with h assms have "s' = s1" by (simp add: extract_search_url_def)
    with f1 r1 show ?thesis by simp
  next
    case (Some hp)
    with h assms have sc: "scan_scripts env (gmatch chunk_pattern hp) [] s1 = (r, s')"
      by (simp add: extract_search_url_def)
    from scan_scripts_frame [OF sc] obtain k where
      k: "s' = s1\<lparr>requests := requests s1
             @ map (\<lambda>src. Get_script (drop 1 src)) (take k (gmatch chunk_pattern hp))\<rparr>"
      by blast
    from r1 obtain new where n: "requests s1 = requests s @ new" "list_all is_discovery new"
      by blast
    have "requests s' = requests s @ (new
        @ map (\<lambda>src. Get_script (drop 1 src)) (take k (gmatch chunk_pattern hp)))"
      using k n(1) by simp
    moreover have "list_all is_discovery (new
        @ map (\<lambda>src. Get_script (drop 1 src)) (take k (gmatch chunk_pattern hp)))"
      using n(2) map_script_discovery by simp
    ultimately have "\<exists>new. requests s' = requests s @ new \<and> list_all is_discovery new"
      by blast
    moreover from k f1 have "cached_token s' = cached_token s \<and> cached_search_url s' = cached_search_url s
      \<and> cached_build_id s' = cached_build_id s \<and> token_expires_at s' = token_expires_at s"
      by simp
    ultimately show ?thesis by simp
  qed
qed

lemma get_search_url_cached:
  "cached_search_url s = Some u \<Longrightarrow> get_search_url env s = (u, s)"
  by (simp add: get_search_url_def)

lemma get_search_url_frame:
  assumes "get_search_url env s = (u, s')"
  shows "cached_token s' = cached_token s \<and> cached_search_url s' = Some u
   \<and> cached_build_id s' = cached_build_id s \<and> token_expires_at s' = token_expires_at s
   \<and> (\<exists>new. requests s' = requests s @ new \<and> list_all is_discovery new)"
proof (cases "cached_search_url s")
  case (Some u')
  with assms have "s' = s" "u = u'" by (simp_all add: get_search_url_def)
  with Some show ?thesis by simp
next
  case None
  obtain r s1 where e: "extract_search_url env s = (r, s1)" by (cases "extract_search_url env s")
  note f = extract_search_url_frame [OF e]
  from assms None e have "s' = s1\<lparr>cached_search_url := Some u\<rparr>"
    by (auto simp: get_search_url_def split: option.splits)
  with f show ?thesis by simp
qed

lemma discovery_not_game_data: "is_discovery rq \<Longrightarrow> \<not> is_game_data rq"
  by (cases rq) auto

lemma not_game_data_discovery: "list_all is_discovery new \<Longrightarrow> list_all (\<lambda>rq. \<not> is_game_data rq) new"
  by (induction new) (auto dest: discovery_not_game_data)

lemma search_frame:
  assumes "search env now q m p s = (r, s')"
  shows "cached_build_id s' = cached_build_id s
    \<and> (\<exists>new. requests s' = requests s @ new \<and> list_all (\<lambda>rq. \<not> is_game_data rq) new)"
proof -
  obtain tr s1 where t: "get_auth_token env False now s = (tr, s1)"
    by (cases "get_auth_token env False now s")
  note f1 = get_auth_token_frame [OF t]
  have r1: "\<exists>new. requests s1 = requests s @ new \<and> list_all (\<lambda>rq. \<not> is_game_data rq) new"
  proof -
    from f1 have "requests s1 = requests s @ [] \<or> requests s1 = requests s @ [Get_token (now * 1000)]"
      by simp
    then show ?thesis
    proof
      assume "requests s1 = requests s @ []"
      then show ?thesis by (intro exI [of _ "[]"]) simp
    next
      assume "requests s1 = requests s @ [Get_token (now * 1000)]"
      then show ?thesis by (intro exI [of _ "[Get_token (now * 1000)]"]) simp
    qed
  qed
  show ?thesis
  proof (cases tr)
    case (Inl e)
    with t assms have "s' = s1" by (simp add: search_def)
    with f1 r1 show ?thesis by simp
  next
    case (Inr tok)
    obtain u s2 where g: "get_search_url env s1 = (u, s2)" by (cases "get_search_url env s1")
    note f2 = get_search_url_frame [OF g]
    from f2 obtain new2 where n2: "requests s2 = requests s1 @ new2" "list_all is_discovery new2"
      by blast
    from r1 obtain new1 where n1: "requests s1 = requests s @ new1"
      "list_all (\<lambda>rq. \<not> is_game_data rq) new1" by blast
    from assms t Inr g have s': "s' = s2\<lparr>requests := requests s2 @ [Post_search u tok q m p]\<rparr>"
      by (auto simp: search_def http_call_def split: option.splits if_splits)
    have "requests s' = requests s @ (new1 @ new2 @ [Post_search u tok q m p])"
      using s' n1(1) n2(1) by simp
    moreover have "list_all (\<lambda>rq. \<not> is_game_data rq) (new1 @ new2 @ [Post_search u tok q m p])"
      using n1(2) not_game_data_discovery [OF n2(2)] by simp
    ultimately have "\<exists>new. requests s' = requests s @ new \<and> list_all (\<lambda>rq. \<not> is_game_data rq) new"
      by blast
    moreover have "cached_build_id s' = cached_build_id s" using s' f1 f2 by simp
    ultimately show ?thesis by simp
  qed
qed

subsection \<open>Validation of search results\<close>

lemma has_type_table: "has_type it k ty \<Longrightarrow> ty \<noteq> ''nil'' \<Longrightarrow> lua_type it = ''table''"
  by (cases it) (auto simp: has_type_def)

lemma valid_item_table: "valid_item it \<Longrightarrow> lua_type it = ''table''"
  by (auto simp: valid_item_def dest: has_type_table)

lemma validate_items_valid: "list_all valid_item xs \<Longrightarrow> validate_items xs = Inr ()"
  by (induction xs) (auto simp: valid_item_def has_type_def split: sum.splits)

lemma validate_items_invalid: "\<not> list_all valid_item xs \<Longrightarrow> \<exists>e. validate_items xs = Inl e"
  by (induction xs) (auto simp: valid_item_def has_type_def split: sum.splits)

lemma index_is_table:
  "lua_index v k = Inr w \<Longrightarrow> lua_type w = ''table'' \<Longrightarrow> lua_type v = ''table'' \<and> truthy v"
  by (cases v) auto

lemma first_valid:
  "lua_type results = ''table'' \<Longrightarrow> list_all valid_item (ipairs results) \<Longrightarrow>
   0 < lua_len results \<Longrightarrow> lua_type (lua_first results) = ''table''"
  apply (cases results; simp)
  subgoal for xs by (cases xs) (auto dest: valid_item_table)
  done

lemma decode_search_valid:
  assumes "json_decode env b = Some d" "lua_index d ''data'' = Inr results"
    "lua_type results = ''table''" "list_all valid_item (ipairs results)"
  shows "decode_search env b = Inr d"
  using assms index_is_table [OF assms(2,3)] first_valid [OF assms(3,4)]
  by (auto simp: decode_search_def validate_items_valid)

lemma validate_items_tables:
  "list_all (\<lambda>it. lua_type it = ''table'') xs \<Longrightarrow> \<not> list_all valid_item xs \<Longrightarrow>
   validate_items xs = Inl Nil_returned"
proof (induction xs)
  case Nil
  then show ?case by simp
next
  case (Cons x xs)
  from Cons.prems(1) have t: "lua_type x = ''table''" by simp
  then obtain a b c where i: "lua_index x ''game_id'' = Inr a" "lua_index x ''game_name'' = Inr b"
    "lua_index x ''comp_all_count'' = Inr c"
    by (cases x) auto
  show ?case
  proof (cases "valid_item x")
    case True
    with Cons i show ?thesis by (simp add: valid_item_def has_type_def)
  next
    case False
    with i show ?thesis by (auto simp: valid_item_def has_type_def)
  qed
qed

lemma first_table:
  "list_all (\<lambda>it. lua_type it = ''table'') (ipairs results) \<Longrightarrow> 0 < lua_len results \<Longrightarrow>
   lua_type (lua_first results) = ''table''"
  apply (cases results; simp)
  subgoal for xs by (cases xs) auto
  done

lemma decode_search_invalid_tables:
  assumes "json_decode env b = Some d" "lua_index d ''data'' = Inr results"
    "lua_type results = ''table''" "list_all (\<lambda>it. lua_type it = ''table'') (ipairs results)"
    "\<not> list_all valid_item (ipairs results)"
  shows "decode_search env b = Inl Nil_returned"
  using assms(1-3) index_is_table [OF assms(2,3)] first_table [OF assms(4)]
    validate_items_tables [OF assms(4,5)]
  by (auto simp: decode_search_def)

lemma decode_search_Inr:
  assumes "decode_search env b = Inr d"
  shows "json_decode env b = Some d \<and> (\<exists>results. lua_index d ''data'' = Inr results
      \<and> lua_type results = ''table'' \<and> list_all valid_item (ipairs results))"
proof -
  from assms obtain results u where i: "json_decode env b = Some d"
    "lua_index d ''data'' = Inr results" "lua_type results = ''table''"
    "validate_items (ipairs results) = Inr u"
    by (auto simp: decode_search_def split: option.splits sum.splits if_splits)
  have "list_all valid_item (ipairs results)"
    using validate_items_invalid [of "ipairs results"] i(4) by auto
  with i show ?thesis by blast
qed

lemma search_Inr:
  "search env now q m p s = (Inr d, s') \<Longrightarrow> \<exists>b. decode_search env b = Inr d"
  by (auto simp: search_def split: prod.splits sum.splits option.splits if_splits)

lemma search_on_response:
  assumes "get_auth_token env False now s = (Inr tok, s1)" "get_search_url env s1 = (u, s2)"
    "http env (length (requests s2)) (Post_search u tok q m p) = Some r" "status r = 200"
  shows "search env now q m p s
    = (decode_search env (body r), s2\<lparr>requests := requests s2 @ [Post_search u tok q m p]\<rparr>)"
  using assms by (simp add: search_def http_call_def)

lemma ready_state_simps:
  "cached_token ready_state = LStr ''abc''" "token_expires_at ready_state = 400"
  "cached_search_url ready_state = Some SEARCH_URL" "cached_build_id ready_state = Some ''Bld1''"
  "requests ready_state = []" "cached_homepage ready_state = None"
  by (simp_all add: ready_state_def initial_state_def)

lemma ready_token: "get_auth_token env False 100 ready_state = (Inr (LStr ''abc''), ready_state)"
  by (simp add: get_auth_token_def ready_state_simps)

lemma ready_search_url: "get_search_url env ready_state = (SEARCH_URL, ready_state)"
  by (simp add: get_search_url_def ready_state_simps)

lemma ready_search:
  assumes "http env 0 (Post_search SEARCH_URL (LStr ''abc'') q m p) = ok b"
  shows "search env 100 q m p ready_state
    = (decode_search env b,
       ready_state\<lparr>requests := [Post_search SEARCH_URL (LStr ''abc'') q m p]\<rparr>)"
  using assms
  by (simp add: search_def http_call_def ready_token ready_search_url ok_def ready_state_simps)

lemma sample_decode_simps:
  "json_decode sample_env token_body = Some (LObj [(''token'', LStr ''abc'')])"
  "json_decode sample_env souls_body
     = Some (search_data [game_item 1001 ''Dark Souls'' 500, game_item 1002 ''Dark Souls II'' 300])"
  "json_decode sample_env souls3_body
     = Some (search_data [game_item 2001 ''Dark Souls'' 100, game_item 2002 ''Dark Souls II'' 400,
                          game_item 2003 ''Dark Souls III'' 50])"
  "json_decode sample_env empty_body = Some (search_data [])"
  "json_decode sample_env half_body = Some (search_data [game_item (3 / 2) ''Half'' 7])"
  "json_decode sample_env broken_body
     = Some (search_data [game_item 1001 ''Dark Souls'' 500,
         LObj [(''game_id'', LStr ''1002''), (''game_name'', LStr ''Dark Souls II''),
               (''comp_all_count'', LNum 300)]])"
  "json_decode sample_env detail_2001_body
     = Some (detail_data [game_record 2001 ''Dark Souls'' 570])"
  "json_decode sample_env detail_2002_body = Some (detail_data [LNum 7])"
  "json_decode sample_env tie_body
     = Some (search_data [game_item 3001 ''Dark Souls 1'' 100, game_item 3002 ''Dark Souls 2'' 100])"
  by (simp_all add: sample_env_def sample_decode_def token_body_def souls_body_def
        souls3_body_def empty_body_def half_body_def broken_body_def detail_2001_body_def
        detail_2002_body_def tie_body_def)

lemma valid_game_item: "valid_item (game_item gid name cnt)"
  by (simp add: valid_item_def has_type_def game_item_def)

lemma search_data_index: "lua_index (search_data items) ''data'' = Inr (LArr items)"
  by (simp add: search_data_def)

lemma sample_search_half:
  "search sample_env 100 ''Half'' [] p ready_state
     = (Inr (search_data [game_item (3 / 2) ''Half'' 7]),
        ready_state\<lparr>requests := [Post_search SEARCH_URL (LStr ''abc'') ''Half'' [] p]\<rparr>)"
proof -
  have "decode_search sample_env half_body = Inr (search_data [game_item (3 / 2) ''Half'' 7])"
    by (rule decode_search_valid [OF sample_decode_simps(5) search_data_index])
       (simp_all add: valid_game_item)
  then show ?thesis
    using ready_search [of sample_env "''Half''" "[]" p half_body]
    by (simp add: sample_env_def)
qed

text \<open>
  C7, as stated, fails: \<^verbatim>\<open>M.search\<close> asks \<^verbatim>\<open>type(item.game_id) ~= "number"\<close>, and a
  catalog id of \<^verbatim>\<open>1.5\<close> is a number. The response below has one item whose catalog id is
  not an integer, and the search returns it.
\<close>

theorem search_accepts_fraction:
  "fst (search sample_env 100 ''Half'' [] 1 ready_state)
     = Inr (search_data [game_item (3 / 2) ''Half'' 7])
   \<and> lua_index (search_data [game_item (3 / 2) ''Half'' 7]) ''data''
       = Inr (LArr [game_item (3 / 2) ''Half'' 7])
   \<and> lua_index (game_item (3 / 2) ''Half'' 7) ''game_id'' = Inr (LNum (3 / 2))
   \<and> \<not> is_integer (LNum (3 / 2))"
proof -
  have "\<lfloor>3 / 2 :: rat\<rfloor> = 1" by (simp add: floor_eq_iff)
  then have "\<not> is_integer (LNum (3 / 2))" by (simp add: is_integer_def)
  then show ?thesis
    by (simp add: sample_search_half search_data_index) (simp add: game_item_def)
qed

text \<open>
  C7, amended. Let the body of the search response decode to a value whose \<^verbatim>\<open>data\<close> field
  is a table, and let every element the table holds be a table. If one element does not
  have a number as \<^verbatim>\<open>game_id\<close>, a string as \<^verbatim>\<open>game_name\<close> and a number as
  \<^verbatim>\<open>comp_all_count\<close>, the whole response is refused: \<^verbatim>\<open>M.search\<close> returns \<^verbatim>\<open>nil\<close> and
  nothing is filtered. If every element has them, the decoded value is the result, so an
  empty array is a result and not a failure. Whatever \<^verbatim>\<open>M.search\<close> returns has passed this
  check.
\<close>

theorem search_fails_closed:
  "(json_decode env b = Some d \<and> lua_index d ''data'' = Inr results
      \<and> lua_type results = ''table''
      \<and> list_all (\<lambda>it. lua_type it = ''table'') (ipairs results) \<longrightarrow>
      (if list_all valid_item (ipairs results) then decode_search env b = Inr d
       else decode_search env b = Inl Nil_returned))
   \<and> (get_auth_token env False now s = (Inr tok, s1) \<and> get_search_url env s1 = (u, s2)
      \<and> http env (length (requests s2)) (Post_search u tok q m p) = Some r \<and> status r = 200 \<longrightarrow>
      fst (search env now q m p s) = decode_search env (body r))
   \<and> (search env now q m p s = (Inr d, s') \<longrightarrow>
      (\<exists>results. lua_index d ''data'' = Inr results \<and> lua_type results = ''table''
         \<and> list_all valid_item (ipairs results)))"
proof (intro conjI impI)
  assume a: "json_decode env b = Some d \<and> lua_index d ''data'' = Inr results
      \<and> lua_type results = ''table''
      \<and> list_all (\<lambda>it. lua_type it = ''table'') (ipairs results)"
  show "if list_all valid_item (ipairs results) then decode_search env b = Inr d
       else decode_search env b = Inl Nil_returned"
  proof (cases "list_all valid_item (ipairs results)")
    case True
    with a decode_search_valid [of env b d results] show ?thesis by simp
  next
    case False
    with a decode_search_invalid_tables [of env b d results] show ?thesis by simp
  qed
next
  assume "get_auth_token env False now s = (Inr tok, s1) \<and> get_search_url env s1 = (u, s2)
      \<and> http env (length (requests s2)) (Post_search u tok q m p) = Some r \<and> status r = 200"
  then show "fst (search env now q m p s) = decode_search env (body r)"
    using search_on_response [of env now s tok s1 u s2 q m p r] by simp
next
  assume "search env now q m p s = (Inr d, s')"
  then obtain b' where "decode_search env b' = Inr d" using search_Inr by blast
  then show "\<exists>results. lua_index d ''data'' = Inr results \<and> lua_type results = ''table''
         \<and> list_all valid_item (ipairs results)"
    using decode_search_Inr by blast
qed

theorem search_fails_closed_witness:
  "decode_search sample_env empty_body = Inr (search_data [])
   \<and> decode_search sample_env broken_body = Inl Nil_returned
   \<and> fst (search sample_env 100 ''Half'' [] 1 ready_state) = decode_search sample_env half_body
   \<and> (\<exists>results. lua_index (search_data [game_item (3 / 2) ''Half'' 7]) ''data'' = Inr results
        \<and> lua_type results = ''table'' \<and> list_all valid_item (ipairs results))"
proof -
  let ?bad = "LObj [(''game_id'', LStr ''1002''), (''game_name'', LStr ''Dark Souls II''),
      (''comp_all_count'', LNum 300)]"
  have bad: "\<not> valid_item ?bad"
    by (simp add: valid_item_def has_type_def)
  have tables: "list_all (\<lambda>it. lua_type it = ''table'') [game_item 1001 ''Dark Souls'' 500, ?bad]"
    by (simp add: game_item_def)
  have post: "http sample_env (length (requests ready_state))
      (Post_search SEARCH_URL (LStr ''abc'') ''Half'' [] 1) = Some \<lparr>status = 200, body = half_body\<rparr>"
    by (simp add: sample_env_def ok_def)
  have 1: "decode_search sample_env empty_body = Inr (search_data [])"
    using search_fails_closed [where env = sample_env and b = empty_body
        and d = "search_data []" and results = "LArr []"]
    by (simp add: sample_decode_simps search_data_index)
  have 2: "decode_search sample_env broken_body = Inl Nil_returned"
    using search_fails_closed [where env = sample_env and b = broken_body
        and d = "search_data [game_item 1001 ''Dark Souls'' 500, ?bad]"
        and results = "LArr [game_item 1001 ''Dark Souls'' 500, ?bad]"] bad tables
    by (simp add: sample_decode_simps search_data_index)
  have 3: "fst (search sample_env 100 ''Half'' [] 1 ready_state)
      = decode_search sample_env half_body"
    using search_fails_closed [where env = sample_env and now = 100 and s = ready_state
        and tok = "LStr ''abc''" and ?s1.0 = ready_state and u = SEARCH_URL
        and ?s2.0 = ready_state and q = "''Half''" and m = "[]" and p = 1
        and r = "\<lparr>status = 200, body = half_body\<rparr>"] post
    by (simp add: ready_token ready_search_url)
  have 4: "\<exists>results. lua_index (search_data [game_item (3 / 2) ''Half'' 7]) ''data'' = Inr results
        \<and> lua_type results = ''table'' \<and> list_all valid_item (ipairs results)"
    using search_fails_closed [where env = sample_env and now = 100 and s = ready_state
        and q = "''Half''" and m = "[]" and p = 1
        and d = "search_data [game_item (3 / 2) ''Half'' 7]"
        and s' = "ready_state\<lparr>requests := [Post_search SEARCH_URL (LStr ''abc'') ''Half'' [] 1]\<rparr>"]
      sample_search_half [of 1]
    by blast
  from 1 2 3 4 show ?thesis by blast
qed

subsection \<open>Validation of a detail record\<close>

lemma validate_fields_Inr_None:
  "(validate_fields g schema = Inr None) = list_all (\<lambda>f. has_type g (fst f) (snd f)) schema"
  by (induction schema) (auto simp: has_type_def split: sum.splits)

lemma validate_game_schema:
  "(validate_fields g game_schema = Inr None) = typed_game_record g"
  unfolding validate_fields_Inr_None by (simp add: game_schema_def typed_game_record_def)

lemma game_path_tables:
  assumes "lua_path d [''pageProps'', ''game'', ''data'', ''game''] = Inr (LArr xs)"
  obtains pp gm gd where "truthy d" "lua_index d ''pageProps'' = Inr pp"
    "lua_type pp = ''table''" "lua_index pp ''game'' = Inr gm" "lua_type gm = ''table''"
    "lua_index gm ''data'' = Inr gd" "lua_type gd = ''table''"
    "lua_index gd ''game'' = Inr (LArr xs)"
proof -
  from assms obtain pp gm gd where i:
    "lua_index d ''pageProps'' = Inr pp" "lua_index pp ''game'' = Inr gm"
    "lua_index gm ''data'' = Inr gd" "lua_index gd ''game'' = Inr (LArr xs)"
    by (auto split: sum.splits)
  have t3: "lua_type gd = ''table''" using index_is_table [OF i(4)] by simp
  have t2: "lua_type gm = ''table''" using index_is_table [OF i(3) t3] by simp
  have t1: "lua_type pp = ''table''" using index_is_table [OF i(2) t2] by simp
  have t0: "truthy d" using index_is_table [OF i(1) t1] by simp
  show thesis using that i t0 t1 t2 t3 by blast
qed

lemma decode_game_data_iff:
  assumes "json_decode env b = Some d"
    and "lua_path d [''pageProps'', ''game'', ''data'', ''game''] = Inr (LArr xs)"
  shows "(decode_game_data env b = Inr g) = (xs = [g] \<and> typed_game_record g)"
proof -
  from assms(2) obtain pp gm gd where i: "truthy d" "lua_index d ''pageProps'' = Inr pp"
    "lua_type pp = ''table''" "lua_index pp ''game'' = Inr gm" "lua_type gm = ''table''"
    "lua_index gm ''data'' = Inr gd" "lua_type gd = ''table''"
    "lua_index gd ''game'' = Inr (LArr xs)"
    by (rule game_path_tables)
  show ?thesis
  proof (cases xs)
    case Nil
    with assms(1) i show ?thesis by (simp add: decode_game_data_def)
  next
    case (Cons x ys)
    show ?thesis
    proof (cases ys)
      case Nil
      have "(validate_fields x game_schema = Inr None) = typed_game_record x"
        by (rule validate_game_schema)
      with assms(1) i Cons Nil show ?thesis
        by (auto simp: decode_game_data_def split: sum.splits option.splits)
    next
      case (Cons y zs)
      with assms(1) i \<open>xs = x # ys\<close> show ?thesis by (simp add: decode_game_data_def)
    qed
  qed
qed

lemma validate_fields_table:
  "lua_type g = ''table'' \<Longrightarrow> \<exists>r. validate_fields g schema = Inr r"
  by (induction schema) (cases g; auto)+

lemma decode_game_data_nil:
  assumes "json_decode env b = Some d"
    and "lua_path d [''pageProps'', ''game'', ''data'', ''game''] = Inr (LArr xs)"
    and "\<forall>g. xs = [g] \<longrightarrow> lua_type g = ''table'' \<and> \<not> typed_game_record g"
  shows "decode_game_data env b = Inl Nil_returned"
proof -
  from assms(2) obtain pp gm gd where i: "truthy d" "lua_index d ''pageProps'' = Inr pp"
    "lua_type pp = ''table''" "lua_index pp ''game'' = Inr gm" "lua_type gm = ''table''"
    "lua_index gm ''data'' = Inr gd" "lua_type gd = ''table''"
    "lua_index gd ''game'' = Inr (LArr xs)"
    by (rule game_path_tables)
  show ?thesis
  proof (cases xs)
    case Nil
    with assms(1) i show ?thesis by (simp add: decode_game_data_def)
  next
    case (Cons x ys)
    show ?thesis
    proof (cases ys)
      case Nil
      with Cons assms(3) have t: "lua_type x = ''table''" "\<not> typed_game_record x" by simp_all
      from validate_fields_table [OF t(1)] obtain r where r: "validate_fields x game_schema = Inr r"
        by blast
      with t(2) have "r \<noteq> None" using validate_game_schema [of x] by auto
      with r assms(1) i Cons Nil show ?thesis
        by (auto simp: decode_game_data_def split: option.splits)
    next
      case (Cons y zs)
      with assms(1) i \<open>xs = x # ys\<close> show ?thesis by (simp add: decode_game_data_def)
    qed
  qed
qed

lemma len_one: "lua_type a = ''table'' \<Longrightarrow> lua_len a = 1 \<Longrightarrow> a = LArr [lua_first a]"
  apply (cases a; simp)
  subgoal for xs by (cases xs) auto
  done

lemma decode_game_data_Inr:
  assumes "decode_game_data env b = Inr g"
  shows "\<exists>d. json_decode env b = Some d
    \<and> lua_path d [''pageProps'', ''game'', ''data'', ''game''] = Inr (LArr [g])
    \<and> typed_game_record g"
proof -
  from assms obtain d pp gm gd ga where i: "json_decode env b = Some d"
    "lua_index d ''pageProps'' = Inr pp" "lua_index pp ''game'' = Inr gm"
    "lua_index gm ''data'' = Inr gd" "lua_index gd ''game'' = Inr ga"
    "lua_type ga = ''table''" "lua_len ga = 1"
    "validate_fields (lua_first ga) game_schema = Inr None" "g = lua_first ga"
    by (auto simp: decode_game_data_def split: sum.splits option.splits if_splits)
  have ga: "ga = LArr [g]" unfolding i(9) by (rule len_one [OF i(6,7)])
  have path: "lua_path d [''pageProps'', ''game'', ''data'', ''game''] = Inr ga"
    by (simp add: i(2-5))
  have "typed_game_record g"
    unfolding i(9) validate_game_schema [symmetric] by (rule i(8))
  with path ga i(1) show ?thesis by blast
qed

lemma extract_build_id_requests:
  "extract_build_id env s = (r, s1) \<Longrightarrow>
   requests s1 = requests s \<or> requests s1 = requests s @ [Get_homepage]"
  by (auto simp: extract_build_id_def get_homepage_def http_call_def
           split: option.splits prod.splits if_splits)

lemma fetch_no_build_id:
  "extract_build_id env s = (None, s1) \<Longrightarrow> fetch_game_data env gid s = (Inl Nil_returned, s1)"
  by (simp add: fetch_game_data_def)

lemma fetch_on_response:
  assumes "extract_build_id env s = (Some build_id, s1)"
    "http env (length (requests s1)) (Get_game_data build_id gid) = Some r" "status r = 200"
  shows "fetch_game_data env gid s
    = (decode_game_data env (body r),
       s1\<lparr>requests := requests s1 @ [Get_game_data build_id gid]\<rparr>)"
  using assms by (simp add: fetch_game_data_def http_call_def)

lemma fetch_game_data_Inr:
  "fetch_game_data env gid s = (Inr g, s') \<Longrightarrow> \<exists>b. decode_game_data env b = Inr g"
  by (auto simp: fetch_game_data_def http_call_def split: prod.splits option.splits if_splits)

lemma ready_build_id: "extract_build_id env ready_state = (Some ''Bld1'', ready_state)"
  by (simp add: extract_build_id_def ready_state_simps)

lemma offline_build_id:
  "extract_build_id offline_env initial_state
     = (None, initial_state\<lparr>requests := [Get_homepage]\<rparr>)"
  by (simp add: extract_build_id_def get_homepage_def http_call_def offline_env_def
        initial_state_def)

lemma detail_data_path:
  "lua_path (detail_data games) [''pageProps'', ''game'', ''data'', ''game''] = Inr (LArr games)"
  by (simp add: detail_data_def)

lemma typed_sample_record: "typed_game_record (game_record gid name steam)"
  by (simp add: typed_game_record_def has_type_def game_record_def)

text \<open>
  The paths of \<^verbatim>\<open>fetch_game_data\<close> that check what they are given. When build-id discovery
  answers with nothing, the call returns \<^verbatim>\<open>nil\<close> in the state discovery left: the only
  request that can have been made is discovery's own fetch of the homepage, and no
  game-data request is made. When the build id is there and the GET answers 200, the
  outcome is that of checking the body. For a body that decodes to a value with the array
  \<^verbatim>\<open>pageProps.game.data.game\<close>, the check hands back a record \<open>g\<close> exactly when the array is
  \<open>[g]\<close> and all seven fields of \<open>g\<close> have their type; it returns \<^verbatim>\<open>nil\<close> when the array has
  no element or more than one, and when its one element is a table that lacks a field or
  has one of another type. Every record that \<^verbatim>\<open>fetch_game_data\<close> returns came out of this
  check.
\<close>

lemma fetch_game_data_checks:
  "(extract_build_id env s = (None, s1) \<longrightarrow>
      fetch_game_data env game_id s = (Inl Nil_returned, s1)
      \<and> (requests s1 = requests s \<or> requests s1 = requests s @ [Get_homepage]))
   \<and> (extract_build_id env s = (Some build_id, s1)
      \<and> http env (length (requests s1)) (Get_game_data build_id game_id) = Some r
      \<and> status r = 200 \<longrightarrow>
      fst (fetch_game_data env game_id s) = decode_game_data env (body r))
   \<and> (json_decode env b = Some d
      \<and> lua_path d [''pageProps'', ''game'', ''data'', ''game''] = Inr (LArr xs) \<longrightarrow>
      (decode_game_data env b = Inr g) = (xs = [g] \<and> typed_game_record g))
   \<and> (json_decode env b = Some d
      \<and> lua_path d [''pageProps'', ''game'', ''data'', ''game''] = Inr (LArr xs)
      \<and> (\<forall>x. xs = [x] \<longrightarrow> lua_type x = ''table'' \<and> \<not> typed_game_record x) \<longrightarrow>
      decode_game_data env b = Inl Nil_returned)
   \<and> (fetch_game_data env game_id s = (Inr g, s') \<longrightarrow>
      (\<exists>b d. json_decode env b = Some d
         \<and> lua_path d [''pageProps'', ''game'', ''data'', ''game''] = Inr (LArr [g])
         \<and> typed_game_record g))"
proof (intro conjI impI)
  assume a: "extract_build_id env s = (None, s1)"
  show "fetch_game_data env game_id s = (Inl Nil_returned, s1)"
    using a by (rule fetch_no_build_id)
  show "requests s1 = requests s \<or> requests s1 = requests s @ [Get_homepage]"
    using a by (rule extract_build_id_requests)
next
  assume "extract_build_id env s = (Some build_id, s1)
      \<and> http env (length (requests s1)) (Get_game_data build_id game_id) = Some r
      \<and> status r = 200"
  then show "fst (fetch_game_data env game_id s) = decode_game_data env (body r)"
    using fetch_on_response [of env s build_id s1 game_id r] by simp
next
  assume "json_decode env b = Some d
      \<and> lua_path d [''pageProps'', ''game'', ''data'', ''game''] = Inr (LArr xs)"
  then show "(decode_game_data env b = Inr g) = (xs = [g] \<and> typed_game_record g)"
    using decode_game_data_iff [of env b d xs g] by simp
next
  assume "json_decode env b = Some d
      \<and> lua_path d [''pageProps'', ''game'', ''data'', ''game''] = Inr (LArr xs)
      \<and> (\<forall>x. xs = [x] \<longrightarrow> lua_type x = ''table'' \<and> \<not> typed_game_record x)"
  then show "decode_game_data env b = Inl Nil_returned"
    using decode_game_data_nil [of env b d xs] by simp
next
  assume "fetch_game_data env game_id s = (Inr g, s')"
  then obtain b' where "decode_game_data env b' = Inr g" using fetch_game_data_Inr by blast
  then show "\<exists>b d. json_decode env b = Some d
         \<and> lua_path d [''pageProps'', ''game'', ''data'', ''game''] = Inr (LArr [g])
         \<and> typed_game_record g"
    using decode_game_data_Inr by blast
qed

lemma decode_detail_2002: "decode_game_data sample_env detail_2002_body = Inl Lua_error"
  by (simp add: decode_game_data_def sample_decode_simps detail_data_def game_schema_def)

text \<open>
  C8 fails on one path. The seven fields are \<^verbatim>\<open>comp_main\<close>, \<^verbatim>\<open>comp_plus\<close>, \<^verbatim>\<open>comp_100\<close>,
  \<^verbatim>\<open>comp_all\<close>, \<^verbatim>\<open>game_id\<close>, \<^verbatim>\<open>profile_steam\<close> (numbers) and \<^verbatim>\<open>game_name\<close> (a string), and
  a call that cannot hand back a record with all of them is to fail, which everywhere
  else in \<^verbatim>\<open>fetch_game_data\<close> means that it returns \<^verbatim>\<open>nil\<close>. The one element of the array is
  handed to \<^verbatim>\<open>validate_fields\<close> without a check that it is a table, and \<^verbatim>\<open>validate_fields\<close>
  indexes it. The response below is a 200 whose array \<^verbatim>\<open>pageProps.game.data.game\<close> is
  \<^verbatim>\<open>[7]\<close>: one element, with none of the seven fields. The call does not return \<^verbatim>\<open>nil\<close>;
  indexing the number raises a Lua error that nothing catches. It is the error that ends
  \<^verbatim>\<open>M.search_best_match\<close> in C3.
\<close>

theorem detail_element_not_table:
  "json_decode sample_env detail_2002_body = Some (detail_data [LNum 7])
   \<and> lua_path (detail_data [LNum 7]) [''pageProps'', ''game'', ''data'', ''game'']
       = Inr (LArr [LNum 7])
   \<and> \<not> typed_game_record (LNum 7)
   \<and> validate_fields (LNum 7) game_schema = Inl Lua_error
   \<and> fetch_game_data sample_env 2002 ready_state
       = (Inl Lua_error, ready_state\<lparr>requests := [Get_game_data ''Bld1'' 2002]\<rparr>)"
proof -
  have get: "http sample_env (length (requests ready_state)) (Get_game_data ''Bld1'' 2002)
      = Some \<lparr>status = 200, body = detail_2002_body\<rparr>"
    by (simp add: sample_env_def ok_def)
  have "fetch_game_data sample_env 2002 ready_state
       = (Inl Lua_error, ready_state\<lparr>requests := [Get_game_data ''Bld1'' 2002]\<rparr>)"
    using fetch_on_response [OF ready_build_id get] decode_detail_2002
    by (simp add: ready_state_simps)
  moreover have "\<not> typed_game_record (LNum 7)"
    by (simp add: typed_game_record_def has_type_def)
  moreover have "validate_fields (LNum 7) game_schema = Inl Lua_error"
    by (simp add: game_schema_def)
  ultimately show ?thesis
    using sample_decode_simps(8) detail_data_path [of "[LNum 7]"] by blast
qed

subsection \<open>The best match: no results, and an exact name\<close>

lemma has_type_string: "has_type it k ''string'' \<Longrightarrow> \<exists>n. lua_index it k = Inr (LStr n)"
  apply (simp add: has_type_def split: sum.splits)
  subgoal for v by (cases v) auto
  done

lemma has_type_number: "has_type it k ''number'' \<Longrightarrow> \<exists>n. lua_index it k = Inr (LNum n)"
  apply (simp add: has_type_def split: sum.splits)
  subgoal for v by (cases v) auto
  done

lemma valid_item_fields:
  assumes "valid_item it"
  shows "lua_index it ''game_id'' = Inr (LNum (item_id it))"
    "lua_index it ''game_name'' = Inr (LStr (item_name it))"
    "lua_index it ''comp_all_count'' = Inr (LNum (item_count it))"
  using assms has_type_number [of it "''game_id''"] has_type_string [of it "''game_name''"]
    has_type_number [of it "''comp_all_count''"]
  by (auto simp: valid_item_def item_id_def item_name_def item_count_def)

lemma exact_match_valid:
  "list_all valid_item xs \<Longrightarrow>
   exact_match env n xs = Inr (List.find (\<lambda>it. normalize env (item_name it) = n) xs)"
  by (induction xs) (auto simp: valid_item_fields)

lemma make_choices_valid:
  "list_all valid_item xs \<Longrightarrow>
   make_choices env (normalize env title) xs = Inr (map (choice_of env title) xs)"
  by (induction xs) (auto simp: valid_item_fields choice_of_def)

lemma search_results_valid:
  assumes "search env now q m p s = (Inr d, s1)" "lua_index d ''data'' = Inr results"
  shows "list_all valid_item (ipairs results)"
proof -
  from assms(1) obtain b where "decode_search env b = Inr d" using search_Inr by blast
  then obtain results' where "lua_index d ''data'' = Inr results'"
    "list_all valid_item (ipairs results')"
    using decode_search_Inr [of env b d] by blast
  with assms(2) show ?thesis by simp
qed

lemma search_new_requests:
  assumes "search env now q m p s = (r, s')"
  shows "list_all (\<lambda>rq. \<not> is_game_data rq) (new_requests s s')"
proof -
  from search_frame [OF assms] obtain new where "requests s' = requests s @ new"
    "list_all (\<lambda>rq. \<not> is_game_data rq) new" by blast
  then show ?thesis by (simp add: new_requests_def)
qed

lemma best_match_no_results:
  assumes "search env now app_name [] 1 s = (Inr d, s1)" "lua_index d ''data'' = Inr results"
    "lua_len results = 0"
  shows "search_best_match env now app_name steam_app_id s = (Inl Nil_returned, s1)"
  unfolding search_best_match_def assms(1) by (simp add: assms(2,3))

lemma find_Some_nonempty: "List.find P xs = Some x \<Longrightarrow> xs \<noteq> []"
  by auto

lemma ipairs_nonempty: "ipairs v \<noteq> [] \<Longrightarrow> lua_len v \<noteq> 0"
  by (cases v) auto

lemma best_match_exact:
  assumes "search env now app_name [] 1 s = (Inr d, s1)" "lua_index d ''data'' = Inr results"
    "List.find (\<lambda>it. normalize env (item_name it) = normalize env app_name) (ipairs results) = Some it"
  shows "search_best_match env now app_name steam_app_id s = (Inr it, s1)"
proof -
  have v: "list_all valid_item (ipairs results)" using assms(1,2) by (rule search_results_valid)
  have "ipairs results \<noteq> []" by (rule find_Some_nonempty [OF assms(3)])
  then have n: "lua_len results \<noteq> 0" by (rule ipairs_nonempty)
  show ?thesis
    unfolding search_best_match_def assms(1)
    by (simp add: assms(2,3) n exact_match_valid [OF v])
qed

lemma http_call_env: "http env' = http env \<Longrightarrow> http_call env' = http_call env"
  by (simp add: http_call_def fun_eq_iff)

lemma scan_scripts_env:
  "http env' = http env \<Longrightarrow> scan_scripts env' scripts found s = scan_scripts env scripts found s"
  by (induction scripts arbitrary: found s)
     (auto simp: http_call_def split: option.splits prod.splits)

lemma get_auth_token_env:
  assumes "http env' = http env" "json_decode env' = json_decode env"
  shows "get_auth_token env' = get_auth_token env"
  unfolding get_auth_token_def http_call_env [OF assms(1)] assms(2) ..

lemma get_search_url_env:
  assumes "http env' = http env"
  shows "get_search_url env' = get_search_url env"
proof -
  have 2: "get_homepage env' = get_homepage env"
    unfolding get_homepage_def http_call_env [OF assms] ..
  have s: "scan_scripts env' = scan_scripts env"
    using scan_scripts_env [OF assms] by (simp add: fun_eq_iff)
  have 3: "extract_search_url env' = extract_search_url env"
    unfolding extract_search_url_def 2 s ..
  show ?thesis
    unfolding get_search_url_def 3 ..
qed

lemma search_env:
  assumes "http env' = http env" "json_decode env' = json_decode env"
  shows "search env' = search env"
proof -
  have 5: "decode_search env' = decode_search env"
    unfolding decode_search_def assms(2) ..
  show ?thesis
    unfolding search_def get_auth_token_env [OF assms] get_search_url_env [OF assms(1)]
      http_call_env [OF assms(1)] 5 ..
qed

lemma normalize_env:
  "sanitize_game_name env' = sanitize_game_name env \<Longrightarrow> normalize env' = normalize env"
  by (simp add: normalize_def fun_eq_iff)


lemma sample_search:
  assumes "http sample_env 0 (Post_search SEARCH_URL (LStr ''abc'') q m p) = ok b"
    "json_decode sample_env b = Some (search_data items)" "list_all valid_item items"
  shows "search sample_env 100 q m p ready_state
    = (Inr (search_data items),
       ready_state\<lparr>requests := [Post_search SEARCH_URL (LStr ''abc'') q m p]\<rparr>)"
proof -
  have "decode_search sample_env b = Inr (search_data items)"
    by (rule decode_search_valid [OF assms(2) search_data_index]) (simp_all add: assms(3))
  then show ?thesis using ready_search [OF assms(1)] by simp
qed

lemma sample_search_souls:
  "search sample_env 100 ''Dark Souls'' [] p ready_state
     = (Inr (search_data [game_item 1001 ''Dark Souls'' 500, game_item 1002 ''Dark Souls II'' 300]),
        ready_state\<lparr>requests := [Post_search SEARCH_URL (LStr ''abc'') ''Dark Souls'' [] p]\<rparr>)"
  by (rule sample_search [OF _ sample_decode_simps(2)])
     (simp_all add: sample_env_def valid_game_item)

lemma sample_search_nothing:
  "search sample_env 100 ''Nothing'' [] p ready_state
     = (Inr (search_data []),
        ready_state\<lparr>requests := [Post_search SEARCH_URL (LStr ''abc'') ''Nothing'' [] p]\<rparr>)"
  by (rule sample_search [OF _ sample_decode_simps(4)]) (simp_all add: sample_env_def)

lemma item_game_item:
  "item_name (game_item gid name cnt) = name" "item_count (game_item gid name cnt) = cnt"
  "item_id (game_item gid name cnt) = gid"
  by (simp_all add: item_name_def item_count_def item_id_def game_item_def)

text \<open>
  C9. When the search succeeds and the result table is empty, \<^verbatim>\<open>search_best_match\<close>
  returns \<^verbatim>\<open>nil\<close> in the state the search left, so it adds no request of its own; and
  none of the requests of the search is a game-data request.
\<close>

theorem no_results_not_found:
  "search env now app_name [] 1 s = (Inr d, s1) \<and> lua_index d ''data'' = Inr results
     \<and> lua_len results = 0 \<longrightarrow>
   search_best_match env now app_name steam_app_id s = (Inl Nil_returned, s1)
   \<and> list_all (\<lambda>rq. \<not> is_game_data rq) (new_requests s s1)"
  using best_match_no_results [of env now app_name s d s1 results steam_app_id]
    search_new_requests [of env now app_name "[]" 1 s "Inr d" s1]
  by blast

theorem no_results_not_found_witness:
  "search_best_match sample_env 100 ''Nothing'' (Some 570) ready_state
     = (Inl Nil_returned,
        ready_state\<lparr>requests := [Post_search SEARCH_URL (LStr ''abc'') ''Nothing'' [] 1]\<rparr>)"
proof -
  have "lua_len (LArr []) = 0" by simp
  then show ?thesis
    using no_results_not_found [where env = sample_env and now = 100 and app_name = "''Nothing''"
        and s = ready_state and d = "search_data []" and results = "LArr []"
        and steam_app_id = "Some 570"
        and ?s1.0 = "ready_state\<lparr>requests := [Post_search SEARCH_URL (LStr ''abc'') ''Nothing'' [] 1]\<rparr>"]
      sample_search_nothing [of 1] search_data_index [of "[]"]
    by blast
qed

text \<open>
  C1. When the search succeeds and \<open>it\<close> is the first item in the order of the results whose
  normalised name equals the normalised title, \<^verbatim>\<open>search_best_match\<close> returns \<open>it\<close>, in
  the state the search left (no request is added, and the search makes no game-data
  request), whether or not a Steam id was given. The outcome is the same whatever
  \<^verbatim>\<open>levenshtein_distance\<close> and \<^verbatim>\<open>table.sort\<close> are: neither is consulted.
\<close>

theorem exact_name_match_wins:
  "search env now app_name [] 1 s = (Inr d, s1) \<and> lua_index d ''data'' = Inr results
     \<and> List.find (\<lambda>it. normalize env (item_name it) = normalize env app_name) (ipairs results)
         = Some it \<longrightarrow>
   search_best_match env now app_name steam_app_id s = (Inr it, s1)
   \<and> search_best_match (env\<lparr>levenshtein_distance := lev, table_sort := srt\<rparr>)
         now app_name steam_app_id s = (Inr it, s1)
   \<and> list_all (\<lambda>rq. \<not> is_game_data rq) (new_requests s s1)"
proof (intro impI, elim conjE, intro conjI)
  let ?env = "env\<lparr>levenshtein_distance := lev, table_sort := srt\<rparr>"
  assume a: "search env now app_name [] 1 s = (Inr d, s1)" "lua_index d ''data'' = Inr results"
    "List.find (\<lambda>it. normalize env (item_name it) = normalize env app_name) (ipairs results)
       = Some it"
  show "search_best_match env now app_name steam_app_id s = (Inr it, s1)"
    using a by (rule best_match_exact)
  have s: "search ?env = search env" by (rule search_env) simp_all
  have n: "normalize ?env = normalize env" by (rule normalize_env) simp
  show "search_best_match ?env now app_name steam_app_id s = (Inr it, s1)"
  proof (rule best_match_exact [where d = d and results = results])
    show "search ?env now app_name [] 1 s = (Inr d, s1)" unfolding s by (rule a(1))
    show "lua_index d ''data'' = Inr results" by (rule a(2))
    show "List.find (\<lambda>it. normalize ?env (item_name it) = normalize ?env app_name)
        (ipairs results) = Some it" unfolding n by (rule a(3))
  qed
  show "list_all (\<lambda>rq. \<not> is_game_data rq) (new_requests s s1)"
    using a(1) by (rule search_new_requests)
qed

theorem exact_name_match_wins_witness:
  "search_best_match sample_env 100 ''Dark Souls'' (Some 570) ready_state
     = (Inr (game_item 1001 ''Dark Souls'' 500),
        ready_state\<lparr>requests := [Post_search SEARCH_URL (LStr ''abc'') ''Dark Souls'' [] 1]\<rparr>)"
proof -
  have f: "List.find (\<lambda>it. normalize sample_env (item_name it) = normalize sample_env ''Dark Souls'')
      (ipairs (LArr [game_item 1001 ''Dark Souls'' 500, game_item 1002 ''Dark Souls II'' 300]))
    = Some (game_item 1001 ''Dark Souls'' 500)"
    by (simp add: item_game_item)
  show ?thesis
    using exact_name_match_wins [where env = sample_env and now = 100
        and app_name = "''Dark Souls''" and s = ready_state and steam_app_id = "Some 570"
        and d = "search_data [game_item 1001 ''Dark Souls'' 500, game_item 1002 ''Dark Souls II'' 300]"
        and results = "LArr [game_item 1001 ''Dark Souls'' 500, game_item 1002 ''Dark Souls II'' 300]"
        and it = "game_item 1001 ''Dark Souls'' 500"
        and ?s1.0 = "ready_state\<lparr>requests := [Post_search SEARCH_URL (LStr ''abc'') ''Dark Souls'' [] 1]\<rparr>"]
      sample_search_souls [of 1] f
      search_data_index [of "[game_item 1001 ''Dark Souls'' 500, game_item 1002 ''Dark Souls II'' 300]"]
    by blast
qed

subsection \<open>Ranking of the candidates\<close>

lemma choice_before_iff:
  "choice_before a b \<longleftrightarrow>
     distance a < distance b \<or> (distance a = distance b \<and> comp_all_count a > comp_all_count b)"
  by (auto simp: choice_before_def)

lemma choice_before_irrefl: "\<not> choice_before a a"
  by (simp add: choice_before_def)

lemma choice_before_trans: "choice_before a b \<Longrightarrow> choice_before b c \<Longrightarrow> choice_before a c"
  by (auto simp: choice_before_iff)

lemma choice_tie_iff:
  "(\<not> choice_before a b \<and> \<not> choice_before b a)
     \<longleftrightarrow> (distance a = distance b \<and> comp_all_count a = comp_all_count b)"
  by (auto simp: choice_before_iff)

lemma not_before_trans:
  "\<not> choice_before b a \<Longrightarrow> \<not> choice_before c b \<Longrightarrow> \<not> choice_before c a"
  by (auto simp: choice_before_iff)

lemma mset_insert_by: "mset (insert_by lt x xs) = add_mset x (mset xs)"
  by (induction xs) auto

lemma set_insert_by: "set (insert_by lt x xs) = insert x (set xs)"
  by (induction xs) auto

lemma sorted_insert_by:
  "sorted_wrt (\<lambda>a b. \<not> choice_before b a) xs \<Longrightarrow>
   sorted_wrt (\<lambda>a b. \<not> choice_before b a) (insert_by choice_before x xs)"
proof (induction xs)
  case Nil
  then show ?case by simp
next
  case (Cons y ys)
  show ?case
  proof (cases "choice_before y x")
    case True
    then have yx: "\<not> choice_before x y" by (auto simp: choice_before_iff)
    from Cons have "sorted_wrt (\<lambda>a b. \<not> choice_before b a) (insert_by choice_before x ys)"
      and "\<forall>z \<in> set ys. \<not> choice_before z y" by simp_all
    with True yx show ?thesis by (simp add: set_insert_by)
  next
    case False
    from Cons.prems have "\<forall>z \<in> set ys. \<not> choice_before z y" by simp
    then have "\<forall>z \<in> set ys. \<not> choice_before z x"
      using False not_before_trans by blast
    with False Cons.prems show ?thesis by simp
  qed
qed

lemma insertion_sort_Cons: "insertion_sort lt (x # xs) = insert_by lt x (insertion_sort lt xs)"
  by (simp add: insertion_sort_def)

lemma mset_insertion_sort: "mset (insertion_sort lt xs) = mset xs"
  by (induction xs) (simp_all add: insertion_sort_Cons mset_insert_by, simp add: insertion_sort_def)

lemma sorted_insertion_sort:
  "sorted_wrt (\<lambda>a b. \<not> choice_before b a) (insertion_sort choice_before xs)"
  by (induction xs) (simp_all add: insertion_sort_Cons sorted_insert_by, simp add: insertion_sort_def)

lemma insertion_sort_contract: "sort_contract insertion_sort"
  by (simp add: sort_contract_def mset_insertion_sort sorted_insertion_sort)

lemma other_sort_contract: "sort_contract (\<lambda>lt xs. insertion_sort lt (rev xs))"
  by (simp add: sort_contract_def mset_insertion_sort sorted_insertion_sort)

lemma ranked_mset:
  "sort_contract (table_sort env) \<Longrightarrow>
   mset (ranked env title items) = mset (map (choice_of env title) items)"
  by (simp add: sort_contract_def ranked_def)

lemma ranked_sorted:
  assumes "sort_contract (table_sort env)" "i < j" "j < length (ranked env title items)"
  shows "\<not> choice_before (ranked env title items ! j) (ranked env title items ! i)"
proof -
  have "sorted_wrt (\<lambda>a b. \<not> choice_before b a) (ranked env title items)"
    using assms(1) by (simp add: sort_contract_def ranked_def)
  then show ?thesis using assms(2,3) by (simp add: sorted_wrt_iff_nth_less)
qed

lemma ranked_length:
  "sort_contract (table_sort env) \<Longrightarrow> length (ranked env title items) = length items"
  using ranked_mset [of env title items] by (metis length_map size_mset)

lemma best_match_ranked:
  assumes "search env now title [] 1 s = (Inr d, s1)" "lua_index d ''data'' = Inr results"
    "ipairs results \<noteq> []"
    "List.find (\<lambda>it. normalize env (item_name it) = normalize env title) (ipairs results) = None"
  shows "search_best_match env now title steam_app_id s =
    (case (case steam_app_id of
             Some sid \<Rightarrow> check_steam_ids env sid
               (take (min 3 (length (ranked env title (ipairs results))))
                  (ranked env title (ipairs results))) s1
           | None \<Rightarrow> (Inr None, s1)) of
       (Inl e, s2) \<Rightarrow> (Inl e, s2)
     | (Inr (Some it), s2) \<Rightarrow> (Inr it, s2)
     | (Inr None, s2) \<Rightarrow>
         (case ranked env title (ipairs results) of
            [] \<Rightarrow> (Inl Nil_returned, s2)
          | best # others \<Rightarrow> (Inr (item best), s2)))"
proof -
  have v: "list_all valid_item (ipairs results)" using assms(1,2) by (rule search_results_valid)
  have n: "lua_len results \<noteq> 0" using assms(3) by (rule ipairs_nonempty)
  show ?thesis
    unfolding search_best_match_def assms(1) ranked_def max_steam_id_checks_def Let_def
    by (simp add: assms(2,4) n exact_match_valid [OF v] make_choices_valid [OF v])
qed

lemma lower_samples:
  "lower ''Dark Souls 3'' = ''dark souls 3''" "lower ''Dark Souls'' = ''dark souls''"
  "lower ''Dark Souls II'' = ''dark souls ii''" "lower ''Dark Souls III'' = ''dark souls iii''"
  "lower ''Dark Souls 4'' = ''dark souls 4''" "lower ''Dark Souls 1'' = ''dark souls 1''"
  "lower ''Dark Souls 2'' = ''dark souls 2''"
  by (simp_all add: lower_def lower_char_def)

lemma levenshtein_samples:
  "levenshtein ''dark souls 3'' ''dark souls'' = 2"
  "levenshtein ''dark souls 3'' ''dark souls ii'' = 2"
  "levenshtein ''dark souls 3'' ''dark souls iii'' = 3"
  "levenshtein ''dark souls 4'' ''dark souls 1'' = 1"
  "levenshtein ''dark souls 4'' ''dark souls 2'' = 1"
  by code_simp+

lemma sample_normalize: "normalize sample_env n = lower n" "normalize other_sort_env n = lower n"
  by (simp_all add: normalize_def sample_env_def other_sort_env_def)

lemma sample_choice_of:
  "choice_of sample_env title (game_item gid name cnt)
     = \<lparr>distance = int (levenshtein (lower title) (lower name)), comp_all_count = cnt,
        item = game_item gid name cnt\<rparr>"
  "choice_of other_sort_env title (game_item gid name cnt)
     = \<lparr>distance = int (levenshtein (lower title) (lower name)), comp_all_count = cnt,
        item = game_item gid name cnt\<rparr>"
  by (simp_all add: choice_of_def item_game_item sample_normalize)
     (simp_all add: sample_env_def other_sort_env_def)

lemma sample_ranked_souls3:
  "ranked sample_env ''Dark Souls 3''
     [game_item 2001 ''Dark Souls'' 100, game_item 2002 ''Dark Souls II'' 400,
      game_item 2003 ''Dark Souls III'' 50]
   = [\<lparr>distance = 2, comp_all_count = 400, item = game_item 2002 ''Dark Souls II'' 400\<rparr>,
      \<lparr>distance = 2, comp_all_count = 100, item = game_item 2001 ''Dark Souls'' 100\<rparr>,
      \<lparr>distance = 3, comp_all_count = 50, item = game_item 2003 ''Dark Souls III'' 50\<rparr>]"
  by (simp add: ranked_def sample_choice_of lower_samples levenshtein_samples)
     (simp add: sample_env_def insertion_sort_def choice_before_def)

lemma sample_find_souls3:
  "List.find (\<lambda>it. normalize sample_env (item_name it) = normalize sample_env ''Dark Souls 3'')
     [game_item 2001 ''Dark Souls'' 100, game_item 2002 ''Dark Souls II'' 400,
      game_item 2003 ''Dark Souls III'' 50] = None"
  by (simp add: sample_normalize item_game_item lower_samples)

lemma sample_search_souls3:
  "search sample_env 100 ''Dark Souls 3'' [] p ready_state
     = (Inr (search_data [game_item 2001 ''Dark Souls'' 100, game_item 2002 ''Dark Souls II'' 400,
                          game_item 2003 ''Dark Souls III'' 50]),
        ready_state\<lparr>requests := [Post_search SEARCH_URL (LStr ''abc'') ''Dark Souls 3'' [] p]\<rparr>)"
  by (rule sample_search [OF _ sample_decode_simps(3)])
     (simp_all add: sample_env_def valid_game_item)

lemma fetch_cached_build_id:
  assumes "cached_build_id s = Some b" "http env (length (requests s)) (Get_game_data b g) = ok body'"
  shows "fetch_game_data env g s
    = (decode_game_data env body', s\<lparr>requests := requests s @ [Get_game_data b g]\<rparr>)"
  using assms by (simp add: fetch_game_data_def extract_build_id_def http_call_def ok_def)

lemma decode_detail_2001:
  "decode_game_data sample_env detail_2001_body = Inr (game_record 2001 ''Dark Souls'' 570)"
  using decode_game_data_iff [OF sample_decode_simps(7) detail_data_path,
      of "game_record 2001 ''Dark Souls'' 570"]
  by (simp add: typed_sample_record)

lemma ranked_nonempty:
  assumes "sort_contract (table_sort env)" "items \<noteq> []"
  shows "\<exists>best others. ranked env title items = best # others"
proof -
  have "length (ranked env title items) = length items" using assms(1) by (rule ranked_length)
  with assms(2) show ?thesis by (cases "ranked env title items") auto
qed

lemma best_match_closest:
  assumes "sort_contract (table_sort env)"
    "search env now title [] 1 s = (Inr d, s1)" "lua_index d ''data'' = Inr results"
    "ipairs results \<noteq> []"
    "List.find (\<lambda>it. normalize env (item_name it) = normalize env title) (ipairs results) = None"
  shows "\<exists>best others. ranked env title (ipairs results) = best # others
    \<and> search_best_match env now title None s = (Inr (item best), s1)"
proof -
  from ranked_nonempty [OF assms(1,4)] obtain best others where
    r: "ranked env title (ipairs results) = best # others" by blast
  have "search_best_match env now title None s = (Inr (item best), s1)"
    unfolding best_match_ranked [OF assms(2-5)] by (simp add: r)
  with r show ?thesis by blast
qed

text \<open>
  C2, amended. The comparison handed to \<^verbatim>\<open>table.sort\<close> puts \<open>a\<close> before \<open>b\<close> exactly when
  \<open>a\<close> has the smaller distance, or the same distance and the larger popularity count.
  It is irreflexive and transitive, and it leaves two entries unordered exactly when they
  agree in distance and in count: a strict weak order, total on the pairs of distance and
  count, not a total order of the candidates. The table the program sorts has one entry per
  search item, with the distance \<^verbatim>\<open>levenshtein_distance\<close> gives for the normalised title
  and the normalised name, and the item's \<^verbatim>\<open>comp_all_count\<close>. Given what \<^verbatim>\<open>table.sort\<close>
  promises, the sorted table holds the same entries and no later entry is put before an
  earlier one by the comparison; and with no exact match and no Steam id, the item of
  its first entry is what \<^verbatim>\<open>search_best_match\<close> returns.
\<close>

theorem ranking_order:
  "(choice_before a b \<longleftrightarrow>
      distance a < distance b \<or> (distance a = distance b \<and> comp_all_count a > comp_all_count b))
   \<and> \<not> choice_before a a
   \<and> (choice_before a b \<and> choice_before b c \<longrightarrow> choice_before a c)
   \<and> ((\<not> choice_before a b \<and> \<not> choice_before b a)
        \<longleftrightarrow> (distance a = distance b \<and> comp_all_count a = comp_all_count b))
   \<and> (search env now title [] 1 s = (Inr d, s1) \<and> lua_index d ''data'' = Inr results \<longrightarrow>
        make_choices env (normalize env title) (ipairs results)
          = Inr (map (choice_of env title) (ipairs results)))
   \<and> (sort_contract (table_sort env) \<longrightarrow>
        mset (ranked env title items) = mset (map (choice_of env title) items)
        \<and> (\<forall>i j. i < j \<and> j < length (ranked env title items) \<longrightarrow>
              \<not> choice_before (ranked env title items ! j) (ranked env title items ! i)))
   \<and> (sort_contract (table_sort env)
        \<and> search env now title [] 1 s = (Inr d, s1) \<and> lua_index d ''data'' = Inr results
        \<and> ipairs results \<noteq> []
        \<and> List.find (\<lambda>it. normalize env (item_name it) = normalize env title) (ipairs results)
            = None \<longrightarrow>
        (\<exists>best others. ranked env title (ipairs results) = best # others
           \<and> search_best_match env now title None s = (Inr (item best), s1)))"
proof (intro conjI)
  show "choice_before a b \<longleftrightarrow>
      distance a < distance b \<or> (distance a = distance b \<and> comp_all_count a > comp_all_count b)"
    by (rule choice_before_iff)
  show "\<not> choice_before a a" by (rule choice_before_irrefl)
  show "choice_before a b \<and> choice_before b c \<longrightarrow> choice_before a c"
    using choice_before_trans by blast
  show "(\<not> choice_before a b \<and> \<not> choice_before b a)
        \<longleftrightarrow> (distance a = distance b \<and> comp_all_count a = comp_all_count b)"
    by (rule choice_tie_iff)
  show "search env now title [] 1 s = (Inr d, s1) \<and> lua_index d ''data'' = Inr results \<longrightarrow>
        make_choices env (normalize env title) (ipairs results)
          = Inr (map (choice_of env title) (ipairs results))"
    using search_results_valid [of env now title "[]" 1 s d s1 results] make_choices_valid
    by blast
  show "sort_contract (table_sort env) \<longrightarrow>
        mset (ranked env title items) = mset (map (choice_of env title) items)
        \<and> (\<forall>i j. i < j \<and> j < length (ranked env title items) \<longrightarrow>
              \<not> choice_before (ranked env title items ! j) (ranked env title items ! i))"
    using ranked_mset [of env title items] ranked_sorted [of env _ _ title items] by blast
  show "sort_contract (table_sort env)
        \<and> search env now title [] 1 s = (Inr d, s1) \<and> lua_index d ''data'' = Inr results
        \<and> ipairs results \<noteq> []
        \<and> List.find (\<lambda>it. normalize env (item_name it) = normalize env title) (ipairs results)
            = None \<longrightarrow>
        (\<exists>best others. ranked env title (ipairs results) = best # others
           \<and> search_best_match env now title None s = (Inr (item best), s1))"
    using best_match_closest [of env now title s d s1 results] by blast
qed

lemma sample_sort_contract: "sort_contract (table_sort sample_env)"
  by (simp add: sample_env_def insertion_sort_contract)

theorem ranking_order_witness:
  "search_best_match sample_env 100 ''Dark Souls 3'' None ready_state
     = (Inr (game_item 2002 ''Dark Souls II'' 400),
        ready_state\<lparr>requests := [Post_search SEARCH_URL (LStr ''abc'') ''Dark Souls 3'' [] 1]\<rparr>)"
proof -
  let ?items = "[game_item 2001 ''Dark Souls'' 100, game_item 2002 ''Dark Souls II'' 400,
      game_item 2003 ''Dark Souls III'' 50]"
  let ?s1 = "ready_state\<lparr>requests := [Post_search SEARCH_URL (LStr ''abc'') ''Dark Souls 3'' [] 1]\<rparr>"
  have i: "ipairs (LArr ?items) = ?items" "?items \<noteq> []" by simp_all
  have "\<exists>best others. ranked sample_env ''Dark Souls 3'' ?items = best # others
     \<and> search_best_match sample_env 100 ''Dark Souls 3'' None ready_state = (Inr (item best), ?s1)"
    using ranking_order [where env = sample_env and now = 100 and title = "''Dark Souls 3''"
        and s = ready_state and d = "search_data ?items" and results = "LArr ?items"
        and ?s1.0 = ?s1]
      sample_sort_contract sample_search_souls3 [of 1] search_data_index [of ?items]
      sample_find_souls3 i
    by simp
  then show ?thesis by (auto simp: sample_ranked_souls3)
qed


lemma other_env_simps:
  "http other_sort_env = http sample_env" "json_decode other_sort_env = json_decode sample_env"
  "table_sort other_sort_env = (\<lambda>lt xs. insertion_sort lt (rev xs))"
  by (simp_all add: other_sort_env_def)

lemma sample_search_tie:
  "search sample_env 100 ''Dark Souls 4'' [] p ready_state
     = (Inr (search_data [game_item 3001 ''Dark Souls 1'' 100, game_item 3002 ''Dark Souls 2'' 100]),
        ready_state\<lparr>requests := [Post_search SEARCH_URL (LStr ''abc'') ''Dark Souls 4'' [] p]\<rparr>)"
  by (rule sample_search [OF _ sample_decode_simps(9)])
     (simp_all add: sample_env_def valid_game_item)

lemma other_search_tie:
  "search other_sort_env 100 ''Dark Souls 4'' [] p ready_state
     = (Inr (search_data [game_item 3001 ''Dark Souls 1'' 100, game_item 3002 ''Dark Souls 2'' 100]),
        ready_state\<lparr>requests := [Post_search SEARCH_URL (LStr ''abc'') ''Dark Souls 4'' [] p]\<rparr>)"
  unfolding search_env [OF other_env_simps(1,2)] by (rule sample_search_tie)

lemma tie_choices:
  "choice_of sample_env ''Dark Souls 4'' (game_item 3001 ''Dark Souls 1'' 100)
     = \<lparr>distance = 1, comp_all_count = 100, item = game_item 3001 ''Dark Souls 1'' 100\<rparr>"
  "choice_of sample_env ''Dark Souls 4'' (game_item 3002 ''Dark Souls 2'' 100)
     = \<lparr>distance = 1, comp_all_count = 100, item = game_item 3002 ''Dark Souls 2'' 100\<rparr>"
  "choice_of other_sort_env ''Dark Souls 4'' (game_item 3001 ''Dark Souls 1'' 100)
     = \<lparr>distance = 1, comp_all_count = 100, item = game_item 3001 ''Dark Souls 1'' 100\<rparr>"
  "choice_of other_sort_env ''Dark Souls 4'' (game_item 3002 ''Dark Souls 2'' 100)
     = \<lparr>distance = 1, comp_all_count = 100, item = game_item 3002 ''Dark Souls 2'' 100\<rparr>"
  by (simp_all add: sample_choice_of lower_samples levenshtein_samples)

lemma tie_ranked:
  "ranked sample_env ''Dark Souls 4''
     [game_item 3001 ''Dark Souls 1'' 100, game_item 3002 ''Dark Souls 2'' 100]
   = [\<lparr>distance = 1, comp_all_count = 100, item = game_item 3001 ''Dark Souls 1'' 100\<rparr>,
      \<lparr>distance = 1, comp_all_count = 100, item = game_item 3002 ''Dark Souls 2'' 100\<rparr>]"
  "ranked other_sort_env ''Dark Souls 4''
     [game_item 3001 ''Dark Souls 1'' 100, game_item 3002 ''Dark Souls 2'' 100]
   = [\<lparr>distance = 1, comp_all_count = 100, item = game_item 3002 ''Dark Souls 2'' 100\<rparr>,
      \<lparr>distance = 1, comp_all_count = 100, item = game_item 3001 ''Dark Souls 1'' 100\<rparr>]"
  by (simp_all add: ranked_def tie_choices other_env_simps)
     (simp_all add: sample_env_def insertion_sort_def choice_before_def)

lemma tie_find:
  "List.find (\<lambda>it. normalize sample_env (item_name it) = normalize sample_env ''Dark Souls 4'')
     (ipairs (LArr [game_item 3001 ''Dark Souls 1'' 100, game_item 3002 ''Dark Souls 2'' 100])) = None"
  "List.find (\<lambda>it. normalize other_sort_env (item_name it) = normalize other_sort_env ''Dark Souls 4'')
     (ipairs (LArr [game_item 3001 ''Dark Souls 1'' 100, game_item 3002 ''Dark Souls 2'' 100])) = None"
  by (simp_all add: sample_normalize item_game_item lower_samples)

lemma game_items_differ: "game_item 3001 ''Dark Souls 1'' 100 \<noteq> game_item 3002 ''Dark Souls 2'' 100"
  by (simp add: game_item_def)

text \<open>
  C2, as stated, fails where two candidates agree in distance and in popularity count:
  the comparison puts neither before the other although they are different
  candidates, so the ranking is not a total order of the candidates, and which of the
  two comes first is up to \<^verbatim>\<open>table.sort\<close>. The two titles below are at distance 1 from
  the query and have count 100; with one sort that keeps \<open>sort_contract\<close> the best match
  is the first of them, with another it is the second.
\<close>

theorem ranking_ties_unordered:
  "choice_of sample_env ''Dark Souls 4'' (game_item 3001 ''Dark Souls 1'' 100)
     \<noteq> choice_of sample_env ''Dark Souls 4'' (game_item 3002 ''Dark Souls 2'' 100)
   \<and> \<not> choice_before (choice_of sample_env ''Dark Souls 4'' (game_item 3001 ''Dark Souls 1'' 100))
         (choice_of sample_env ''Dark Souls 4'' (game_item 3002 ''Dark Souls 2'' 100))
   \<and> \<not> choice_before (choice_of sample_env ''Dark Souls 4'' (game_item 3002 ''Dark Souls 2'' 100))
         (choice_of sample_env ''Dark Souls 4'' (game_item 3001 ''Dark Souls 1'' 100))
   \<and> sort_contract (table_sort sample_env) \<and> sort_contract (table_sort other_sort_env)
   \<and> fst (search_best_match sample_env 100 ''Dark Souls 4'' None ready_state)
       = Inr (game_item 3001 ''Dark Souls 1'' 100)
   \<and> fst (search_best_match other_sort_env 100 ''Dark Souls 4'' None ready_state)
       = Inr (game_item 3002 ''Dark Souls 2'' 100)"
proof -
  have 1: "fst (search_best_match sample_env 100 ''Dark Souls 4'' None ready_state)
       = Inr (game_item 3001 ''Dark Souls 1'' 100)"
    using best_match_ranked [OF sample_search_tie [of 1] search_data_index _ tie_find(1), of None]
    by (simp add: tie_ranked)
  have 2: "fst (search_best_match other_sort_env 100 ''Dark Souls 4'' None ready_state)
       = Inr (game_item 3002 ''Dark Souls 2'' 100)"
    using best_match_ranked [OF other_search_tie [of 1] search_data_index _ tie_find(2), of None]
    by (simp add: tie_ranked)
  have 3: "sort_contract (table_sort other_sort_env)"
    by (simp add: other_env_simps other_sort_contract)
  show ?thesis
    using 1 2 3 sample_sort_contract game_items_differ
    by (simp add: tie_choices choice_before_def)
qed

subsection \<open>Confirmation by Steam id\<close>

lemma check_steam_ids_nil_continues:
  "lua_index (item c) ''game_id'' = Inr (LNum g) \<Longrightarrow>
   fetch_game_data env g s = (Inl Nil_returned, s1) \<Longrightarrow>
   check_steam_ids env sid (c # rest) s = check_steam_ids env sid rest s1"
  by simp

lemma check_steam_ids_match_stops:
  "lua_index (item c) ''game_id'' = Inr (LNum g) \<Longrightarrow>
   fetch_game_data env g s = (Inr game_data, s1) \<Longrightarrow>
   lua_index game_data ''profile_steam'' = Inr (LNum sid) \<Longrightarrow>
   check_steam_ids env sid (c # rest) s = (Inr (Some (item c)), s1)"
  by simp

lemma check_steam_ids_error_stops:
  "lua_index (item c) ''game_id'' = Inr (LNum g) \<Longrightarrow>
   fetch_game_data env g s = (Inl Lua_error, s1) \<Longrightarrow>
   check_steam_ids env sid (c # rest) s = (Inl Lua_error, s1)"
  by simp

lemma fetch_game_data_requests:
  assumes "fetch_game_data env g s = (r, s')"
  shows "\<exists>new. requests s' = requests s @ new \<and> length (filter is_game_data new) \<le> 1"
proof -
  obtain b s1 where e: "extract_build_id env s = (b, s1)" by (cases "extract_build_id env s")
  from extract_build_id_requests [OF e]
  have "requests s1 = requests s @ [] \<or> requests s1 = requests s @ [Get_homepage]" by simp
  then obtain new1 where n1: "requests s1 = requests s @ new1" "filter is_game_data new1 = []"
    by (elim disjE) (fastforce intro: that)+
  show ?thesis
  proof (cases b)
    case None
    with e assms have "s' = s1" by (simp add: fetch_game_data_def)
    with n1 show ?thesis by (intro exI [of _ new1]) simp
  next
    case (Some bid)
    with e assms have "requests s' = requests s1 @ [Get_game_data bid g]"
      by (auto simp: fetch_game_data_def http_call_def split: option.splits if_splits)
    with n1 show ?thesis by (intro exI [of _ "new1 @ [Get_game_data bid g]"]) simp
  qed
qed

lemma check_steam_ids_requests:
  "check_steam_ids env sid cs s = (r, s') \<Longrightarrow>
   \<exists>new. requests s' = requests s @ new \<and> length (filter is_game_data new) \<le> length cs"
proof (induction cs arbitrary: s)
  case Nil
  then show ?case by simp
next
  case (Cons c cs)
  show ?case
  proof (cases "lua_index (item c) ''game_id''")
    case (Inl e)
    with Cons.prems show ?thesis by simp
  next
    case (Inr v)
    show ?thesis
    proof (cases v)
      case (LNum g)
      obtain fr s1 where f: "fetch_game_data env g s = (fr, s1)"
        by (cases "fetch_game_data env g s")
      from fetch_game_data_requests [OF f] obtain new1 where
        n1: "requests s1 = requests s @ new1" "length (filter is_game_data new1) \<le> 1" by blast
      from Cons.prems Inr LNum f consider (stop) "s' = s1"
        | (go) "check_steam_ids env sid cs s1 = (r, s')"
        by (auto split: sum.splits failure.splits if_splits)
      then show ?thesis
      proof cases
        case stop
        with n1 show ?thesis by (intro exI [of _ new1]) simp
      next
        case go
        from Cons.IH [OF go] obtain new2 where
          n2: "requests s' = requests s1 @ new2" "length (filter is_game_data new2) \<le> length cs"
          by blast
        with n1 show ?thesis by (intro exI [of _ "new1 @ new2"]) simp
      qed
    qed (use Cons.prems Inr in simp_all)
  qed
qed

lemma check_take_witness:
  "\<exists>sid' cs. length cs \<le> 3
     \<and> snd (check_steam_ids env sid' cs s1) = snd (check_steam_ids env sid (take (min 3 n) pc) s1)"
  by (intro exI [of _ sid] exI [of _ "take (min 3 n) pc"]) simp

lemma snd_best_match_tail:
  "snd (case X of
          (Inl e, s2) \<Rightarrow> (Inl e, s2)
        | (Inr (Some it), s2) \<Rightarrow> (Inr it, s2)
        | (Inr None, s2) \<Rightarrow>
            (case pc of [] \<Rightarrow> (Inl Nil_returned, s2) | best # others \<Rightarrow> (Inr (item best), s2)))
   = snd X"
  by (auto split: prod.splits sum.splits option.splits list.splits)

lemma snd_best_choice:
  "snd (case pc of [] \<Rightarrow> (Inl Nil_returned, s2) | best # others \<Rightarrow> (Inr (item best), s2)) = s2"
  by (cases pc) simp_all

lemma best_match_state:
  assumes "search_best_match env now title steam_app_id s = (r, s')"
    "search env now title [] 1 s = (sr, s1)"
  shows "s' = s1 \<or> (\<exists>sid cs. length cs \<le> 3 \<and> snd (check_steam_ids env sid cs s1) = s')"
proof -
  have "snd (search_best_match env now title steam_app_id s) = s1
    \<or> (\<exists>sid cs. length cs \<le> 3
         \<and> snd (check_steam_ids env sid cs s1) = snd (search_best_match env now title steam_app_id s))"
    unfolding search_best_match_def assms(2) max_steam_id_checks_def Let_def
    by (simp add: snd_best_match_tail snd_best_choice check_take_witness
             split: sum.splits option.splits
             del: check_steam_ids.simps)
  with assms(1) show ?thesis by simp
qed

lemma best_match_detail_fetches:
  assumes "search_best_match env now title steam_app_id s = (r, s')"
  shows "length (filter is_game_data (new_requests s s')) \<le> 3"
proof -
  obtain sr s1 where sr: "search env now title [] 1 s = (sr, s1)"
    by (cases "search env now title [] 1 s")
  from search_frame [OF sr] obtain new1 where
    n1: "requests s1 = requests s @ new1" "list_all (\<lambda>rq. \<not> is_game_data rq) new1" by blast
  then have f1: "filter is_game_data new1 = []" by (simp add: list_all_iff filter_empty_conv)
  from best_match_state [OF assms sr] show ?thesis
  proof
    assume "s' = s1"
    with n1 f1 show ?thesis by (simp add: new_requests_def)
  next
    assume "\<exists>sid cs. length cs \<le> 3 \<and> snd (check_steam_ids env sid cs s1) = s'"
    then obtain sid cs where c: "length cs \<le> 3" "snd (check_steam_ids env sid cs s1) = s'"
      by blast
    then have "check_steam_ids env sid cs s1 = (fst (check_steam_ids env sid cs s1), s')"
      by (simp add: prod_eq_iff)
    from check_steam_ids_requests [OF this] obtain new2 where
      n2: "requests s' = requests s1 @ new2" "length (filter is_game_data new2) \<le> length cs"
      by blast
    with n1 f1 c(1) show ?thesis by (simp add: new_requests_def)
  qed
qed

lemma sample_fetch_2002:
  assumes "cached_build_id s = Some ''Bld1''"
  shows "fetch_game_data sample_env 2002 s
    = (Inl Lua_error, s\<lparr>requests := requests s @ [Get_game_data ''Bld1'' 2002]\<rparr>)"
proof -
  have "http sample_env (length (requests s)) (Get_game_data ''Bld1'' 2002) = ok detail_2002_body"
    by (simp add: sample_env_def)
  from fetch_cached_build_id [OF assms this] show ?thesis by (simp add: decode_detail_2002)
qed

lemma sample_fetch_2001:
  assumes "cached_build_id s = Some ''Bld1''"
  shows "fetch_game_data sample_env 2001 s
    = (Inr (game_record 2001 ''Dark Souls'' 570),
       s\<lparr>requests := requests s @ [Get_game_data ''Bld1'' 2001]\<rparr>)"
proof -
  have "http sample_env (length (requests s)) (Get_game_data ''Bld1'' 2001) = ok detail_2001_body"
    by (simp add: sample_env_def)
  from fetch_cached_build_id [OF assms this] show ?thesis by (simp add: decode_detail_2001)
qed

lemma game_item_index:
  "lua_index (game_item gid name cnt) ''game_id'' = Inr (LNum gid)"
  "lua_index (game_item gid name cnt) ''game_name'' = Inr (LStr name)"
  "lua_index (game_item gid name cnt) ''comp_all_count'' = Inr (LNum cnt)"
  by (simp_all add: game_item_def)

text \<open>
  C3. The loop over the top candidates makes at most three game-data requests
  (\<open>best_match_detail_fetches\<close>), goes on to the next candidate when \<^verbatim>\<open>fetch_game_data\<close>
  returns \<^verbatim>\<open>nil\<close> (\<open>check_steam_ids_nil_continues\<close>) and stops at the first candidate
  whose record carries the Steam id (\<open>check_steam_ids_match_stops\<close>). But a detail
  fetch can also fail with a Lua error: \<^verbatim>\<open>validate_fields\<close> indexes the one element of
  the game array without asking whether it is a table. Nothing catches the error, so it
  ends \<^verbatim>\<open>search_best_match\<close> (\<open>check_steam_ids_error_stops\<close>). Below, the detail
  page of the top candidate 2002 holds the array \<^verbatim>\<open>[7]\<close>; the next candidate, 2001, has
  Steam id 570, the id asked for, and is never reached.
\<close>

theorem detail_error_is_fatal:
  "search_best_match sample_env 100 ''Dark Souls 3'' (Some 570) ready_state
     = (Inl Lua_error,
        ready_state\<lparr>requests := [Post_search SEARCH_URL (LStr ''abc'') ''Dark Souls 3'' [] 1,
                                   Get_game_data ''Bld1'' 2002]\<rparr>)
   \<and> fst (fetch_game_data sample_env 2001 ready_state)
       = Inr (game_record 2001 ''Dark Souls'' 570)
   \<and> lua_index (game_record 2001 ''Dark Souls'' 570) ''profile_steam'' = Inr (LNum 570)"
proof -
  let ?items = "[game_item 2001 ''Dark Souls'' 100, game_item 2002 ''Dark Souls II'' 400,
      game_item 2003 ''Dark Souls III'' 50]"
  have f: "List.find (\<lambda>it. normalize sample_env (item_name it) = normalize sample_env ''Dark Souls 3'')
      (ipairs (LArr ?items)) = None"
    using sample_find_souls3 by simp
  have 1: "search_best_match sample_env 100 ''Dark Souls 3'' (Some 570) ready_state
     = (Inl Lua_error,
        ready_state\<lparr>requests := [Post_search SEARCH_URL (LStr ''abc'') ''Dark Souls 3'' [] 1,
                                   Get_game_data ''Bld1'' 2002]\<rparr>)"
    using best_match_ranked [OF sample_search_souls3 [of 1] search_data_index _ f, of "Some 570"]
    by (simp add: sample_ranked_souls3 sample_fetch_2002 ready_state_simps game_item_index)
  have 2: "fst (fetch_game_data sample_env 2001 ready_state)
       = Inr (game_record 2001 ''Dark Souls'' 570)"
    by (simp add: sample_fetch_2001 ready_state_simps)
  have 3: "lua_index (game_record 2001 ''Dark Souls'' 570) ''profile_steam'' = Inr (LNum 570)"
    by (simp add: game_record_def)
  from 1 2 3 show ?thesis by blast
qed


subsection \<open>Discovery of the search endpoint\<close>

lemma scan_paths_fresh:
  "first_fresh_verified (map (Pair content) paths @ rest) found =
     (case scan_paths content paths found of
        (Some u, found') \<Rightarrow> Some u
      | (None, found') \<Rightarrow> first_fresh_verified rest found')"
  by (induction paths arbitrary: found) (auto simp: verified_def split: option.splits)

lemma scan_scripts_fresh:
  "fst (scan_scripts env scripts found s)
     = first_fresh_verified (scan_literals env (length (requests s)) scripts) found"
proof (induction scripts arbitrary: found s)
  case Nil
  then show ?case by simp
next
  case (Cons src rest)
  let ?s1 = "s\<lparr>requests := requests s @ [Get_script (drop 1 src)]\<rparr>"
  have IH: "fst (scan_scripts env rest f ?s1)
      = first_fresh_verified (scan_literals env (Suc (length (requests s))) rest) f" for f
    using Cons.IH [of f ?s1] by simp
  show ?case
  proof (cases "http env (length (requests s)) (Get_script (drop 1 src))")
    case None
    with IH show ?thesis by (simp add: http_call_def)
  next
    case (Some r)
    show ?thesis
    proof (cases "status r = 200")
      case False
      with Some IH show ?thesis by (simp add: http_call_def)
    next
      case True
      obtain u f' where sp: "scan_paths (body r) (gmatch api_pattern (body r)) found = (u, f')"
        by (cases "scan_paths (body r) (gmatch api_pattern (body r)) found")
      show ?thesis
        using Some True sp IH
          scan_paths_fresh [of "body r" "gmatch api_pattern (body r)"
            "scan_literals env (Suc (length (requests s))) rest" found]
        by (cases u) (simp_all add: http_call_def)
    qed
  qed
qed

lemma first_fresh_verified_sound:
  "first_fresh_verified ls seen = Some u \<Longrightarrow>
   \<exists>l \<in> set ls. \<exists>endpoint. verified (fst l) (snd l)
      \<and> lua_match endpoint_pattern (snd l) = Some endpoint \<and> endpoint \<notin> set seen
      \<and> u = ''api/'' @ endpoint"
proof (induction ls arbitrary: seen)
  case Nil
  then show ?case by simp
next
  case (Cons l ls)
  show ?case
  proof (cases "lua_match endpoint_pattern (snd l)")
    case None
    with Cons.prems have "first_fresh_verified ls seen = Some u" by simp
    from Cons.IH [OF this] show ?thesis by auto
  next
    case (Some e)
    consider (seen) "e \<in> set seen" | (hit) "e \<notin> set seen" "verified (fst l) (snd l)"
      | (miss) "e \<notin> set seen" "\<not> verified (fst l) (snd l)" by blast
    then show ?thesis
    proof cases
      case seen
      with Cons.prems Some have "first_fresh_verified ls seen = Some u" by simp
      from Cons.IH [OF this] show ?thesis by auto
    next
      case hit
      with Cons.prems Some have "u = ''api/'' @ e" by simp
      with hit Some show ?thesis by auto
    next
      case miss
      with Cons.prems Some have "first_fresh_verified ls (e # seen) = Some u" by simp
      from Cons.IH [OF this] show ?thesis by auto
    qed
  qed
qed

lemma first_fresh_none:
  "\<forall>l \<in> set ls. \<not> verified (fst l) (snd l) \<Longrightarrow> first_fresh_verified ls seen = None"
  by (induction ls arbitrary: seen) (auto split: option.splits)

lemma scan_literals_Cons_None:
  "scan_paths content (gmatch api_pattern content) found = (None, found') \<Longrightarrow>
   first_fresh_verified (map (Pair content) (gmatch api_pattern content) @ rest) found
     = first_fresh_verified rest found'"
  using scan_paths_fresh [of content "gmatch api_pattern content" rest found] by simp

lemma scan_scripts_requests:
  "scan_scripts env scripts found s = (r, s') \<Longrightarrow>
   \<exists>k \<le> length scripts.
      s' = s\<lparr>requests := requests s @ map (\<lambda>src. Get_script (drop 1 src)) (take k scripts)\<rparr>
      \<and> (r = None \<longrightarrow> k = length scripts)
      \<and> (r \<noteq> None \<longrightarrow> 0 < k
           \<and> first_fresh_verified (scan_literals env (length (requests s)) (take (k - 1) scripts))
                found = None)"
proof (induction scripts arbitrary: found s)
  case Nil
  then show ?case by simp
next
  case (Cons src rest)
  let ?n = "length (requests s)"
  let ?s1 = "s\<lparr>requests := requests s @ [Get_script (drop 1 src)]\<rparr>"
  let ?lits = "case http env ?n (Get_script (drop 1 src)) of
        Some r \<Rightarrow>
          if status r = 200 then map (Pair (body r)) (gmatch api_pattern (body r)) else []
      | None \<Rightarrow> []"
  from Cons.prems consider
      (stop) "s' = ?s1" "r \<noteq> None"
    | (go) found' where "scan_scripts env rest found' ?s1 = (r, s')"
        "\<And>more. first_fresh_verified (?lits @ more) found = first_fresh_verified more found'"
    by (auto simp: http_call_def scan_literals_Cons_None
             split: option.splits if_splits prod.splits)
  then show ?case
  proof cases
    case stop
    then show ?thesis by (intro exI [of _ 1]) auto
  next
    case go
    from Cons.IH [OF go(1)] obtain k where k: "k \<le> length rest"
      "s' = ?s1\<lparr>requests := requests ?s1 @ map (\<lambda>src. Get_script (drop 1 src)) (take k rest)\<rparr>"
      "r = None \<longrightarrow> k = length rest"
      "r \<noteq> None \<longrightarrow> 0 < k
         \<and> first_fresh_verified (scan_literals env (Suc ?n) (take (k - 1) rest)) found' = None"
      by auto
    have "r \<noteq> None \<longrightarrow>
        first_fresh_verified (scan_literals env ?n (take (Suc k - 1) (src # rest))) found = None"
    proof
      assume "r \<noteq> None"
      with k(4) obtain j where j: "k = Suc j"
        "first_fresh_verified (scan_literals env (Suc ?n) (take j rest)) found' = None"
        by (cases k) auto
      have "scan_literals env ?n (take (Suc k - 1) (src # rest))
          = ?lits @ scan_literals env (Suc ?n) (take j rest)"
        using j(1) by simp
      then show "first_fresh_verified (scan_literals env ?n (take (Suc k - 1) (src # rest))) found
          = None"
        using go(2) j(2) by simp
    qed
    with k show ?thesis by (intro exI [of _ "Suc k"]) simp
  qed
qed

lemma get_search_url_no_homepage:
  assumes "cached_search_url s = None" "get_homepage env s = (None, s1)"
  shows "get_search_url env s = (SEARCH_URL, s1\<lparr>cached_search_url := Some SEARCH_URL\<rparr>)"
  using assms by (simp add: get_search_url_def extract_search_url_def)

lemma get_search_url_scan:
  assumes "cached_search_url s = None" "get_homepage env s = (Some homepage, s1)"
    "scan_scripts env (gmatch chunk_pattern homepage) [] s1 = (r, s2)"
  shows "get_search_url env s =
    (case r of Some u \<Rightarrow> BASE_URL @ u | None \<Rightarrow> SEARCH_URL,
     s2\<lparr>cached_search_url := Some (case r of Some u \<Rightarrow> BASE_URL @ u | None \<Rightarrow> SEARCH_URL)\<rparr>)"
  using assms by (cases r) (simp_all add: get_search_url_def extract_search_url_def)

text \<open>
  C4, amended. With no search URL cached: if the homepage cannot be fetched, the search
  URL is the static fallback. Otherwise the chunk scripts named in the homepage are
  requested in the order in which they appear, a script whose fetch fails adding no
  literal, and the search URL is the base URL followed by the first verified path literal
  among those whose endpoint name has not been met earlier in the scan, in this script or
  in one before it; it is the fallback if there is none (in particular if no literal of
  any script is verified). The scripts requested are exactly the first \<open>k\<close> of the list:
  all of them if nothing is found, otherwise up to the one that holds the literal found,
  and none after it. A path that is returned is verified: its endpoint is not on the skip
  list and the body of the same script holds a POST fetch of it.
\<close>

theorem endpoint_discovery:
  "(cached_search_url s = None \<and> get_homepage env s = (None, s1) \<longrightarrow>
      get_search_url env s = (SEARCH_URL, s1\<lparr>cached_search_url := Some SEARCH_URL\<rparr>))
   \<and> (cached_search_url s = None \<and> get_homepage env s = (Some homepage, s1) \<longrightarrow>
      fst (get_search_url env s)
        = (case first_fresh_verified
                 (scan_literals env (length (requests s1)) (gmatch chunk_pattern homepage)) [] of
             Some u \<Rightarrow> BASE_URL @ u
           | None \<Rightarrow> SEARCH_URL)
      \<and> (\<exists>k \<le> length (gmatch chunk_pattern homepage).
            requests (snd (get_search_url env s))
              = requests s1 @ map (\<lambda>src. Get_script (drop 1 src))
                                 (take k (gmatch chunk_pattern homepage))
            \<and> (if first_fresh_verified
                     (scan_literals env (length (requests s1)) (gmatch chunk_pattern homepage)) []
                   = None
               then k = length (gmatch chunk_pattern homepage)
               else 0 < k
                 \<and> first_fresh_verified
                      (scan_literals env (length (requests s1))
                         (take (k - 1) (gmatch chunk_pattern homepage))) [] = None)))
   \<and> (first_fresh_verified ls seen = Some u \<longrightarrow>
        (\<exists>l \<in> set ls. \<exists>endpoint. verified (fst l) (snd l)
            \<and> lua_match endpoint_pattern (snd l) = Some endpoint \<and> endpoint \<notin> set seen
            \<and> u = ''api/'' @ endpoint))
   \<and> ((\<forall>l \<in> set ls. \<not> verified (fst l) (snd l)) \<longrightarrow> first_fresh_verified ls seen = None)"
proof (intro conjI impI)
  assume "cached_search_url s = None \<and> get_homepage env s = (None, s1)"
  then show "get_search_url env s = (SEARCH_URL, s1\<lparr>cached_search_url := Some SEARCH_URL\<rparr>)"
    using get_search_url_no_homepage by blast
next
  assume a: "cached_search_url s = None \<and> get_homepage env s = (Some homepage, s1)"
  let ?scripts = "gmatch chunk_pattern homepage"
  obtain r s2 where sc: "scan_scripts env ?scripts [] s1 = (r, s2)"
    by (cases "scan_scripts env ?scripts [] s1")
  have r: "r = first_fresh_verified (scan_literals env (length (requests s1)) ?scripts) []"
    using scan_scripts_fresh [of env ?scripts "[]" s1] sc by simp
  have g: "get_search_url env s =
    (case r of Some u \<Rightarrow> BASE_URL @ u | None \<Rightarrow> SEARCH_URL,
     s2\<lparr>cached_search_url := Some (case r of Some u \<Rightarrow> BASE_URL @ u | None \<Rightarrow> SEARCH_URL)\<rparr>)"
    using a sc get_search_url_scan by blast
  show "fst (get_search_url env s)
        = (case first_fresh_verified (scan_literals env (length (requests s1)) ?scripts) [] of
             Some u \<Rightarrow> BASE_URL @ u
           | None \<Rightarrow> SEARCH_URL)"
    unfolding g r by simp
  from scan_scripts_requests [OF sc] obtain k where k: "k \<le> length ?scripts"
    "s2 = s1\<lparr>requests := requests s1 @ map (\<lambda>src. Get_script (drop 1 src)) (take k ?scripts)\<rparr>"
    "r = None \<longrightarrow> k = length ?scripts"
    "r \<noteq> None \<longrightarrow> 0 < k
       \<and> first_fresh_verified (scan_literals env (length (requests s1)) (take (k - 1) ?scripts)) []
           = None"
    by blast
  have rq: "requests (snd (get_search_url env s))
      = requests s1 @ map (\<lambda>src. Get_script (drop 1 src)) (take k ?scripts)"
    unfolding g using k(2) by simp
  show "\<exists>k \<le> length ?scripts.
            requests (snd (get_search_url env s))
              = requests s1 @ map (\<lambda>src. Get_script (drop 1 src)) (take k ?scripts)
            \<and> (if first_fresh_verified (scan_literals env (length (requests s1)) ?scripts) [] = None
               then k = length ?scripts
               else 0 < k
                 \<and> first_fresh_verified
                      (scan_literals env (length (requests s1)) (take (k - 1) ?scripts)) [] = None)"
    using k(1,3,4) rq unfolding r [symmetric] by (intro exI [of _ k]) simp
next
  assume "first_fresh_verified ls seen = Some u"
  then show "\<exists>l \<in> set ls. \<exists>endpoint. verified (fst l) (snd l)
            \<and> lua_match endpoint_pattern (snd l) = Some endpoint \<and> endpoint \<notin> set seen
            \<and> u = ''api/'' @ endpoint"
    by (rule first_fresh_verified_sound)
next
  assume "\<forall>l \<in> set ls. \<not> verified (fst l) (snd l)"
  then show "first_fresh_verified ls seen = None" by (rule first_fresh_none)
qed

lemma sample_literals:
  "scan_literals sample_env 1 (gmatch chunk_pattern sample_homepage)
     = [(script_a, ''/api/user''), (script_a, ''/api/seek''),
        (script_b, ''/api/seek''), (script_b, ''/api/lookup'')]"
  by code_simp

lemma sample_first_verified:
  "first_verified [(script_a, ''/api/user''), (script_a, ''/api/seek''),
        (script_b, ''/api/seek''), (script_b, ''/api/lookup'')] = Some ''api/seek''"
  by code_simp

lemma sample_first_fresh:
  "first_fresh_verified [(script_a, ''/api/user''), (script_a, ''/api/seek''),
        (script_b, ''/api/seek''), (script_b, ''/api/lookup'')] [] = Some ''api/lookup''"
  by code_simp

lemma sample_verified:
  "\<not> verified script_a ''/api/user''" "\<not> verified script_a ''/api/seek''"
  "verified script_b ''/api/seek''" "verified script_b ''/api/lookup''"
  by code_simp+

lemma sample_homepage_fetch:
  "get_homepage sample_env initial_state
     = (Some sample_homepage,
        initial_state\<lparr>requests := [Get_homepage], cached_homepage := Some sample_homepage\<rparr>)"
  by (simp add: get_homepage_def http_call_def sample_env_def ok_def initial_state_def)

lemma offline_homepage_fetch:
  "get_homepage offline_env initial_state = (None, initial_state\<lparr>requests := [Get_homepage]\<rparr>)"
  by (simp add: get_homepage_def http_call_def offline_env_def initial_state_def)

lemma after_homepage_requests:
  "length (requests (initial_state\<lparr>requests := [Get_homepage],
      cached_homepage := Some sample_homepage\<rparr>)) = 1"
  by simp

text \<open>
  C4, as stated, fails: an endpoint name that has been met once is never looked at
  again, also not in a later script. Script \<^verbatim>\<open>a.js\<close> mentions \<^verbatim>\<open>"/api/seek"\<close> without
  a POST fetch; script \<^verbatim>\<open>b.js\<close> fetches \<^verbatim>\<open>"/api/seek"\<close> with POST and, after it,
  \<^verbatim>\<open>"/api/lookup"\<close>. The first verified literal of the scan is \<^verbatim>\<open>/api/seek\<close> in \<^verbatim>\<open>b.js\<close>;
  \<^verbatim>\<open>extract_search_url\<close> returns \<^verbatim>\<open>api/lookup\<close>.
\<close>

theorem discovery_skips_seen_endpoint:
  "scan_literals sample_env 1 (gmatch chunk_pattern sample_homepage)
     = [(script_a, ''/api/user''), (script_a, ''/api/seek''),
        (script_b, ''/api/seek''), (script_b, ''/api/lookup'')]
   \<and> first_verified (scan_literals sample_env 1 (gmatch chunk_pattern sample_homepage))
       = Some ''api/seek''
   \<and> fst (extract_search_url sample_env initial_state) = Some ''api/lookup''"
proof -
  have "extract_search_url sample_env initial_state
      = scan_scripts sample_env (gmatch chunk_pattern sample_homepage) []
          (initial_state\<lparr>requests := [Get_homepage], cached_homepage := Some sample_homepage\<rparr>)"
    by (simp add: extract_search_url_def sample_homepage_fetch)
  then have "fst (extract_search_url sample_env initial_state) = Some ''api/lookup''"
    by (simp only: scan_scripts_fresh after_homepage_requests sample_literals sample_first_fresh)
  then show ?thesis
    unfolding sample_literals sample_first_verified by simp
qed

theorem endpoint_discovery_witness:
  "get_search_url offline_env initial_state
     = (SEARCH_URL, initial_state\<lparr>requests := [Get_homepage], cached_search_url := Some SEARCH_URL\<rparr>)
   \<and> fst (get_search_url sample_env initial_state) = BASE_URL @ ''api/lookup''
   \<and> first_fresh_verified [(script_a, ''/api/user''), (script_a, ''/api/seek'')] [] = None"
proof -
  have c: "cached_search_url initial_state = None" by (simp add: initial_state_def)
  have a: "get_search_url offline_env initial_state
     = (SEARCH_URL, initial_state\<lparr>requests := [Get_homepage], cached_search_url := Some SEARCH_URL\<rparr>)"
    using endpoint_discovery [where env = offline_env and s = initial_state
        and ?s1.0 = "initial_state\<lparr>requests := [Get_homepage]\<rparr>"]
      c offline_homepage_fetch by simp
  have "fst (get_search_url sample_env initial_state)
        = (case first_fresh_verified
                 (scan_literals sample_env
                    (length (requests (initial_state\<lparr>requests := [Get_homepage],
                       cached_homepage := Some sample_homepage\<rparr>)))
                    (gmatch chunk_pattern sample_homepage)) [] of
             Some u \<Rightarrow> BASE_URL @ u
           | None \<Rightarrow> SEARCH_URL)"
    using endpoint_discovery [where env = sample_env and s = initial_state
        and homepage = sample_homepage
        and ?s1.0 = "initial_state\<lparr>requests := [Get_homepage], cached_homepage := Some sample_homepage\<rparr>"]
      c sample_homepage_fetch
    by blast
  then have b: "fst (get_search_url sample_env initial_state) = BASE_URL @ ''api/lookup''"
    by (simp only: after_homepage_requests sample_literals sample_first_fresh option.case)
  have "\<forall>l \<in> set [(script_a, ''/api/user''), (script_a, ''/api/seek'')]. \<not> verified (fst l) (snd l)"
    by (simp add: sample_verified)
  then have d: "first_fresh_verified [(script_a, ''/api/user''), (script_a, ''/api/seek'')] [] = None"
    using endpoint_discovery [where ls = "[(script_a, ''/api/user''), (script_a, ''/api/seek'')]"
        and seen = "[]"]
    by blast
  from a b d show ?thesis by blast
qed


subsection \<open>The cached search URL\<close>

lemma get_search_url_populates:
  "cached_search_url (snd (get_search_url env s)) = Some (fst (get_search_url env s))"
  using get_search_url_frame [of env s "fst (get_search_url env s)" "snd (get_search_url env s)"]
  by simp

lemma get_search_url_fallback:
  "cached_search_url s = None \<Longrightarrow> fst (extract_search_url env s) = None \<Longrightarrow>
   fst (get_search_url env s) = SEARCH_URL"
  by (cases "extract_search_url env s") (simp add: get_search_url_def)

lemma search_cached:
  assumes "cached_search_url s = Some u" "search env now q m p s = (r, s')"
  shows "cached_search_url s' = Some u
    \<and> (\<exists>new. requests s' = requests s @ new \<and> list_all (search_traffic u) new)"
proof -
  obtain tr s1 where t: "get_auth_token env False now s = (tr, s1)"
    by (cases "get_auth_token env False now s")
  note f1 = get_auth_token_frame [OF t]
  have c1: "cached_search_url s1 = Some u" using f1 assms(1) by simp
  have "requests s1 = requests s @ [] \<or> requests s1 = requests s @ [Get_token (now * 1000)]"
    using f1 by simp
  then obtain new1 where n1: "requests s1 = requests s @ new1" "list_all (search_traffic u) new1"
    by (elim disjE) (fastforce intro: that)+
  show ?thesis
  proof (cases tr)
    case (Inl e)
    with t assms(2) have "s' = s1" by (simp add: search_def)
    with c1 n1 show ?thesis by blast
  next
    case (Inr tok)
    have g: "get_search_url env s1 = (u, s1)" using c1 by (rule get_search_url_cached)
    from assms(2) t Inr g have "s' = s1\<lparr>requests := requests s1 @ [Post_search u tok q m p]\<rparr>"
      by (auto simp: search_def http_call_def split: option.splits if_splits)
    with c1 n1 show ?thesis
      by (intro conjI exI [of _ "new1 @ [Post_search u tok q m p]"]) simp_all
  qed
qed

lemma fetch_game_data_url:
  assumes "fetch_game_data env g s = (r, s')"
  shows "cached_search_url s' = cached_search_url s
    \<and> (\<exists>new. requests s' = requests s @ new \<and> list_all (keeps_url u) new)"
proof -
  obtain b s1 where e: "extract_build_id env s = (b, s1)" by (cases "extract_build_id env s")
  have c1: "cached_search_url s1 = cached_search_url s"
    using e by (auto simp: extract_build_id_def get_homepage_def http_call_def
                     split: option.splits prod.splits if_splits)
  from extract_build_id_requests [OF e]
  have "requests s1 = requests s @ [] \<or> requests s1 = requests s @ [Get_homepage]" by simp
  then obtain new1 where n1: "requests s1 = requests s @ new1" "list_all (keeps_url u) new1"
    by (elim disjE) (fastforce intro: that)+
  show ?thesis
  proof (cases b)
    case None
    with e assms have "s' = s1" by (simp add: fetch_game_data_def)
    with c1 n1 show ?thesis by blast
  next
    case (Some bid)
    with e assms have "s' = s1\<lparr>requests := requests s1 @ [Get_game_data bid g]\<rparr>"
      by (auto simp: fetch_game_data_def http_call_def split: option.splits if_splits)
    with c1 n1 show ?thesis
      by (intro conjI exI [of _ "new1 @ [Get_game_data bid g]"]) simp_all
  qed
qed

lemma check_steam_ids_url:
  "check_steam_ids env sid cs s = (r, s') \<Longrightarrow>
   cached_search_url s' = cached_search_url s
   \<and> (\<exists>new. requests s' = requests s @ new \<and> list_all (keeps_url u) new)"
proof (induction cs arbitrary: s)
  case Nil
  then show ?case by simp
next
  case (Cons c cs)
  show ?case
  proof (cases "lua_index (item c) ''game_id''")
    case (Inl e)
    with Cons.prems show ?thesis by simp
  next
    case (Inr v)
    show ?thesis
    proof (cases v)
      case (LNum g)
      obtain fr s1 where f: "fetch_game_data env g s = (fr, s1)"
        by (cases "fetch_game_data env g s")
      from fetch_game_data_url [OF f, of u] obtain new1 where
        n1: "cached_search_url s1 = cached_search_url s" "requests s1 = requests s @ new1"
          "list_all (keeps_url u) new1" by blast
      from Cons.prems Inr LNum f consider (stop) "s' = s1"
        | (go) "check_steam_ids env sid cs s1 = (r, s')"
        by (auto split: sum.splits failure.splits if_splits)
      then show ?thesis
      proof cases
        case stop
        with n1 show ?thesis by blast
      next
        case go
        from Cons.IH [OF go] obtain new2 where
          n2: "cached_search_url s' = cached_search_url s1" "requests s' = requests s1 @ new2"
            "list_all (keeps_url u) new2"
          by blast
        with n1 show ?thesis by (intro conjI exI [of _ "new1 @ new2"]) simp_all
      qed
    qed (use Cons.prems Inr in simp_all)
  qed
qed

lemma search_traffic_keeps: "search_traffic u rq \<Longrightarrow> keeps_url u rq"
  by (cases rq) auto

lemma best_match_url:
  assumes "cached_search_url s = Some u" "search_best_match env now title sid s = (r, s')"
  shows "cached_search_url s' = Some u
    \<and> (\<exists>new. requests s' = requests s @ new \<and> list_all (keeps_url u) new)"
proof -
  obtain sr s1 where sr: "search env now title [] 1 s = (sr, s1)"
    by (cases "search env now title [] 1 s")
  from search_cached [OF assms(1) sr] obtain new1 where
    n1: "cached_search_url s1 = Some u" "requests s1 = requests s @ new1"
      "list_all (search_traffic u) new1" by blast
  then have k1: "list_all (keeps_url u) new1"
    by (simp add: list_all_iff search_traffic_keeps)
  from best_match_state [OF assms(2) sr] show ?thesis
  proof
    assume "s' = s1"
    with n1 k1 show ?thesis by blast
  next
    assume "\<exists>sid cs. length cs \<le> 3 \<and> snd (check_steam_ids env sid cs s1) = s'"
    then obtain sid' cs where "snd (check_steam_ids env sid' cs s1) = s'" by blast
    then have "check_steam_ids env sid' cs s1 = (fst (check_steam_ids env sid' cs s1), s')"
      by (simp add: prod_eq_iff)
    from check_steam_ids_url [OF this, of u] obtain new2 where
      "cached_search_url s' = cached_search_url s1" "requests s' = requests s1 @ new2"
      "list_all (keeps_url u) new2" by blast
    with n1 k1 show ?thesis by (intro conjI exI [of _ "new1 @ new2"]) simp_all
  qed
qed

lemma run_call_url:
  assumes "cached_search_url s = Some u" "c \<noteq> Call_clear"
  shows "cached_search_url (run_call env c s) = Some u
    \<and> (\<exists>new. requests (run_call env c s) = requests s @ new \<and> list_all (keeps_url u) new)"
proof (cases c)
  case (Call_token f now)
  have t: "get_auth_token env f now s = (fst (get_auth_token env f now s), run_call env c s)"
    using Call_token by simp
  from get_auth_token_frame [OF t]
  have "cached_search_url (run_call env c s) = cached_search_url s"
    and "requests (run_call env c s) = requests s @ []
      \<or> requests (run_call env c s) = requests s @ [Get_token (now * 1000)]" by simp_all
  then show ?thesis using assms(1) by (elim disjE) (fastforce)+
next
  case (Call_search now q m p)
  have "search env now q m p s = (fst (search env now q m p s), run_call env c s)"
    using Call_search by simp
  from search_cached [OF assms(1) this] show ?thesis
    by (auto simp: list_all_iff search_traffic_keeps)
next
  case (Call_best_match now title sid)
  have "search_best_match env now title sid s
      = (fst (search_best_match env now title sid s), run_call env c s)"
    using Call_best_match by simp
  from best_match_url [OF assms(1) this] show ?thesis .
next
  case Call_clear
  with assms(2) show ?thesis by simp
qed

lemma run_calls_url:
  "cached_search_url s = Some u \<Longrightarrow> Call_clear \<notin> set cs \<Longrightarrow>
   cached_search_url (run_calls env cs s) = Some u
   \<and> (\<exists>new. requests (run_calls env cs s) = requests s @ new \<and> list_all (keeps_url u) new)"
proof (induction cs arbitrary: s)
  case Nil
  then show ?case by simp
next
  case (Cons c cs)
  from Cons.prems have c: "c \<noteq> Call_clear" "Call_clear \<notin> set cs" by auto
  from run_call_url [OF Cons.prems(1) c(1), of env] obtain new1 where
    n1: "cached_search_url (run_call env c s) = Some u"
      "requests (run_call env c s) = requests s @ new1" "list_all (keeps_url u) new1" by blast
  from Cons.IH [OF n1(1) c(2)] obtain new2 where
    n2: "cached_search_url (run_calls env cs (run_call env c s)) = Some u"
      "requests (run_calls env cs (run_call env c s)) = requests (run_call env c s) @ new2"
      "list_all (keeps_url u) new2" by blast
  with n1 show ?case by (intro conjI exI [of _ "new1 @ new2"]) simp_all
qed

text \<open>
  C10. After \<^verbatim>\<open>get_search_url\<close> the search URL it returned is cached, and it is the static
  fallback when nothing was cached and discovery came back empty. While a URL \<open>u\<close> is
  cached, \<^verbatim>\<open>get_search_url\<close> returns \<open>u\<close> without touching the state, so without any
  request; a search leaves \<open>u\<close> cached and makes no request but a token fetch and the POST
  to \<open>u\<close>; and through any sequence of calls of the exported functions that does not
  contain \<^verbatim>\<open>clear_cache\<close>, \<open>u\<close> stays cached, no script is ever fetched and every search
  goes to \<open>u\<close>. Only \<^verbatim>\<open>clear_cache\<close> empties the variable. So the fallback cached after one
  failed discovery stays, even when the homepage could be fetched later.
\<close>

theorem search_url_pinned:
  "cached_search_url (snd (get_search_url env s)) = Some (fst (get_search_url env s))
   \<and> (cached_search_url s = None \<and> fst (extract_search_url env s) = None \<longrightarrow>
        fst (get_search_url env s) = SEARCH_URL)
   \<and> (cached_search_url s = Some u \<longrightarrow> get_search_url env s = (u, s))
   \<and> (cached_search_url s = Some u \<and> search env now q m p s = (r, s') \<longrightarrow>
        cached_search_url s' = Some u \<and> length (requests s) \<le> length (requests s')
        \<and> list_all (search_traffic u) (new_requests s s'))
   \<and> (cached_search_url s = Some u \<and> Call_clear \<notin> set calls \<longrightarrow>
        cached_search_url (run_calls env calls s) = Some u
        \<and> length (requests s) \<le> length (requests (run_calls env calls s))
        \<and> list_all (keeps_url u) (new_requests s (run_calls env calls s)))
   \<and> cached_search_url (clear_cache s) = None"
proof (intro conjI impI)
  show "cached_search_url (snd (get_search_url env s)) = Some (fst (get_search_url env s))"
    by (rule get_search_url_populates)
  show "cached_search_url (clear_cache s) = None" by (simp add: clear_cache_def)
next
  assume "cached_search_url s = None \<and> fst (extract_search_url env s) = None"
  then show "fst (get_search_url env s) = SEARCH_URL" using get_search_url_fallback by blast
next
  assume "cached_search_url s = Some u"
  then show "get_search_url env s = (u, s)" by (rule get_search_url_cached)
next
  assume a: "cached_search_url s = Some u \<and> search env now q m p s = (r, s')"
  then obtain new where n: "cached_search_url s' = Some u" "requests s' = requests s @ new"
    "list_all (search_traffic u) new"
    using search_cached [of s u env now q m p r s'] by blast
  show "cached_search_url s' = Some u" by (rule n(1))
  show "length (requests s) \<le> length (requests s')" using n(2) by simp
  show "list_all (search_traffic u) (new_requests s s')" using n(2,3) by (simp add: new_requests_def)
next
  assume a: "cached_search_url s = Some u \<and> Call_clear \<notin> set calls"
  then obtain new where n: "cached_search_url (run_calls env calls s) = Some u"
    "requests (run_calls env calls s) = requests s @ new" "list_all (keeps_url u) new"
    using run_calls_url [of s u calls env] by blast
  show "cached_search_url (run_calls env calls s) = Some u" by (rule n(1))
  show "length (requests s) \<le> length (requests (run_calls env calls s))" using n(2) by simp
  show "list_all (keeps_url u) (new_requests s (run_calls env calls s))"
    using n(2,3) by (simp add: new_requests_def)
qed

lemma flaky_first_search:
  "snd (search flaky_env 0 ''Nothing'' [] 1 initial_state) = pinned_state"
  by code_simp

lemma flaky_second_search:
  "requests (run_calls flaky_env [Call_search 1000 ''Nothing'' [] 1] pinned_state)
     = [Get_token 0, Get_homepage, Post_search SEARCH_URL (LStr ''abc'') ''Nothing'' [] 1,
        Get_token 1000000, Post_search SEARCH_URL (LStr ''abc'') ''Nothing'' [] 1]"
  by code_simp

lemma flaky_homepage_later:
  "http flaky_env 3 Get_homepage = ok sample_homepage"
  by (simp add: flaky_env_def)

theorem search_url_pinned_witness:
  "snd (search flaky_env 0 ''Nothing'' [] 1 initial_state) = pinned_state
   \<and> cached_search_url pinned_state = Some SEARCH_URL
   \<and> http flaky_env 3 Get_homepage = ok sample_homepage
   \<and> cached_search_url (run_calls flaky_env [Call_search 1000 ''Nothing'' [] 1] pinned_state)
       = Some SEARCH_URL
   \<and> list_all (keeps_url SEARCH_URL)
        (new_requests pinned_state
           (run_calls flaky_env [Call_search 1000 ''Nothing'' [] 1] pinned_state))
   \<and> requests (run_calls flaky_env [Call_search 1000 ''Nothing'' [] 1] pinned_state)
       = [Get_token 0, Get_homepage, Post_search SEARCH_URL (LStr ''abc'') ''Nothing'' [] 1,
          Get_token 1000000, Post_search SEARCH_URL (LStr ''abc'') ''Nothing'' [] 1]"
proof -
  have c: "cached_search_url pinned_state = Some SEARCH_URL"
    by (simp add: pinned_state_def)
  have n: "Call_clear \<notin> set [Call_search 1000 ''Nothing'' [] 1]" by simp
  have "cached_search_url (run_calls flaky_env [Call_search 1000 ''Nothing'' [] 1] pinned_state)
       = Some SEARCH_URL
   \<and> list_all (keeps_url SEARCH_URL)
        (new_requests pinned_state
           (run_calls flaky_env [Call_search 1000 ''Nothing'' [] 1] pinned_state))"
    using search_url_pinned [where env = flaky_env and s = pinned_state and u = SEARCH_URL
        and calls = "[Call_search 1000 ''Nothing'' [] 1]"] c n
    by blast
  with c flaky_first_search flaky_second_search flaky_homepage_later show ?thesis by blast
qed


end
